theory Spec2Isabelle
  imports Complex_Main
begin

section \<open>Data model (migration SQL and the Prisma client types)\<close>

datatype UserStatus = ACTIVE | INACTIVE | SUSPENDED | DELETED

datatype AttemptStatus = IN_PROGRESS | COMPLETED | EXPIRED | ABANDONED

text \<open>
  Time stamps are milliseconds since the epoch (what \<open>Date.getTime()\<close> returns), as
  unbounded integers. Columns of table \<open>users\<close>.
\<close>

record User =
  u_id :: string
  u_email :: string
  u_firstName :: string
  u_lastName :: string
  u_passwordHash :: string
  u_emailVerified :: bool
  u_status :: UserStatus
  u_createdAt :: int
  u_updatedAt :: int

text \<open>
  The claims of a JSON web token. Every field of a decoded payload may be absent
  (\<open>undefined\<close> in the source), so each is optional; \<open>p_type\<close> is the discriminator the
  verifiers compare with \<open>'access'\<close>, \<open>'refresh'\<close> and \<open>'signup'\<close>.
\<close>

record jwt_payload =
  p_sub :: "string option"
  p_email :: "string option"
  p_tokenId :: "string option"
  p_attemptId :: "string option"
  p_currentStep :: "string option"
  p_type :: "string option"

text \<open>
  Token strings, symbolically: \<open>Signed p k iat exp\<close> is the string the JWT library
  produces for payload \<open>p\<close> under key \<open>k\<close>, issued at second \<open>iat\<close> and expiring at
  second \<open>exp\<close>; \<open>Opaque s\<close> is any other string a client may send.
\<close>

datatype token = Signed jwt_payload string int int | Opaque string

text \<open>Columns of table \<open>refresh_tokens\<close>.\<close>

record RefreshToken =
  rt_id :: string
  rt_token :: token
  rt_userId :: string
  rt_revoked :: bool
  rt_expiresAt :: int
  rt_createdAt :: int

text \<open>Columns of table \<open>signup_attempts\<close>.\<close>

record SignupAttempt =
  sa_id :: string
  sa_email :: string
  sa_firstName :: "string option"
  sa_lastName :: "string option"
  sa_passwordHash :: "string option"
  sa_emailVerified :: bool
  sa_phoneVerified :: bool
  sa_mfaEnabled :: bool
  sa_currentStep :: string
  sa_completedSteps :: "string list"
  sa_status :: AttemptStatus
  sa_attemptCount :: int
  sa_createdAt :: int
  sa_updatedAt :: int
  sa_expiresAt :: int
  sa_completedAt :: "int option"

text \<open>The credential store: the three tables, rows in insertion order.\<close>

record db =
  users :: "User list"
  refreshTokens :: "RefreshToken list"
  signupAttempts :: "SignupAttempt list"

text \<open>
  What a store call can answer instead of a result: the store does not answer at all
  (\<open>Unavailable\<close>), a unique index or primary key rejects the write, \<open>update\<close> finds no
  row, the foreign key of \<open>refresh_tokens.user_id\<close> rejects the write, an \<open>INTEGER\<close>
  column overflows, or the client refuses the arguments.
\<close>

datatype store_error =
  Unavailable | UniqueViolation | RecordNotFound | ForeignKeyViolation | OutOfRange
  | ValidationError

text \<open>Everything the services can throw.\<close>

datatype exn =
  ConflictException string
  | InternalServerErrorException string
  | UnauthorizedException string
  | PrismaError store_error
  | ConfigError string
  | JwtError string
  | TypeError

text \<open>
  The environment of one service call: the clock reading, the identifier the random
  generator hands out, what \<open>bcrypt.hash\<close> returns (\<open>None\<close> when it throws), whether the
  store answers the call's \<open>i\<close>-th store access, and the JWT library's reading of an
  \<open>expiresIn\<close> string as a number of seconds (\<open>None\<close> when it rejects the string).
  The runtime's string and calendar functions are part of it as well:
  \<open>toLowerCase\<close> is \<open>String.prototype.toLowerCase\<close>; \<open>plusDays t n\<close> is the time value of
  a \<open>Date\<close> at \<open>t\<close> after \<open>setDate(getDate() + n)\<close>, and \<open>plusHours t n\<close> the one after
  \<open>setHours(getHours() + n)\<close>, both in the server's time zone and \<open>None\<close> when the
  result is no valid date.
\<close>

record env =
  clock :: int
  randomUUID :: string
  bcrypt_hash :: "string \<Rightarrow> int option \<Rightarrow> string option"
  storeUp :: "nat \<Rightarrow> bool"
  timespan :: "string \<Rightarrow> int option"
  toLowerCase :: "string \<Rightarrow> string"
  plusDays :: "int \<Rightarrow> int \<Rightarrow> int option"
  plusHours :: "int \<Rightarrow> int \<Rightarrow> int option"

definition after :: "nat \<Rightarrow> env \<Rightarrow> env" where
  "after k e = e\<lparr>storeUp := (\<lambda>i. storeUp e (i + k))\<rparr>"

text \<open>The configuration service: a partial map from keys to strings.\<close>

type_synonym config = "string \<Rightarrow> string option"

definition cfg_get :: "config \<Rightarrow> string \<Rightarrow> string \<Rightarrow> string" where
  "cfg_get cfg k dflt = (case cfg k of None \<Rightarrow> dflt | Some v \<Rightarrow> v)"

definition cfg_or :: "config \<Rightarrow> string \<Rightarrow> string \<Rightarrow> string" where
  "cfg_or cfg k dflt = (case cfg k of None \<Rightarrow> dflt | Some v \<Rightarrow> (if v = [] then dflt else v))"

definition getOrThrow :: "config \<Rightarrow> string \<Rightarrow> exn + string" where
  "getOrThrow cfg k = (case cfg k of None \<Rightarrow> Inl (ConfigError k) | Some v \<Rightarrow> Inr v)"

section \<open>String helpers of the language\<close>

definition isDigit :: "char \<Rightarrow> bool" where
  "isDigit c = (c \<in> set ''0123456789'')"

definition digitVal :: "char \<Rightarrow> nat" where
  "digitVal c = (case map_of (zip ''0123456789'' [0, 1, 2, 3, 4, 5, 6, 7, 8, 9]) c of
     None \<Rightarrow> 0 | Some n \<Rightarrow> n)"

definition isWhite :: "char \<Rightarrow> bool" where
  "isWhite c = (c \<in> set [CHR '' '', CHR 0x09, CHR 0x0A, CHR 0x0B, CHR 0x0C, CHR 0x0D])"

text \<open>
  \<open>parseInt(s, 10)\<close>: leading white space is skipped, one sign is read, then the longest
  run of decimal digits; no digit gives \<open>NaN\<close>, here \<open>None\<close>.
\<close>

definition parseInt10 :: "string \<Rightarrow> int option" where
  "parseInt10 s =
     (let t = dropWhile isWhite s;
          neg = (t \<noteq> [] \<and> hd t = CHR ''-'');
          u = (if t \<noteq> [] \<and> (hd t = CHR ''-'' \<or> hd t = CHR ''+'') then tl t else t);
          ds = takeWhile isDigit u
      in if ds = [] then None
         else Some ((if neg then - 1 else 1) *
                    int (foldl (\<lambda>a c. 10 * a + digitVal c) 0 ds)))"

section \<open>The JWT library, symbolically\<close>

text \<open>
  \<open>jwtService.sign(payload, {secret, expiresIn})\<close>: the issue time is the clock in
  seconds; the library rejects an empty key and an \<open>expiresIn\<close> it cannot read.
\<close>

definition jwt_sign :: "env \<Rightarrow> jwt_payload \<Rightarrow> string \<Rightarrow> string \<Rightarrow> exn + token" where
  "jwt_sign e p secret expiresIn =
     (if secret = [] then Inl (JwtError ''secretOrPrivateKey must have a value'')
      else case timespan e expiresIn of
        None \<Rightarrow> Inl (JwtError ''invalid expiresIn'')
      | Some secs \<Rightarrow> Inr (Signed p secret (clock e div 1000) (clock e div 1000 + secs)))"

text \<open>
  \<open>jwtService.verify(token, {secret})\<close>: a string that is no token, an empty key, a
  signature under another key, and a clock at or past \<open>exp\<close> are errors; otherwise the
  payload.
\<close>

definition jwt_verify :: "env \<Rightarrow> token \<Rightarrow> string \<Rightarrow> exn + jwt_payload" where
  "jwt_verify e t secret =
     (case t of
        Opaque s \<Rightarrow> Inl (JwtError ''jwt malformed'')
      | Signed p k iat ex \<Rightarrow>
          if secret = [] then Inl (JwtError ''secret or public key must be provided'')
          else if k \<noteq> secret then Inl (JwtError ''invalid signature'')
          else if ex \<le> clock e div 1000 then Inl (JwtError ''jwt expired'')
          else Inr p)"

section \<open>The store: Prisma calls over the schema's constraints\<close>

text \<open>The unique index \<open>signup_attempts_email_status_key\<close> on (email, status).\<close>

definition sa_unique :: "SignupAttempt list \<Rightarrow> bool" where
  "sa_unique t = distinct (map (\<lambda>a. (sa_email a, sa_status a)) t)"

text \<open>The column type \<open>INTEGER\<close> of \<open>attempt_count\<close>.\<close>

definition int4 :: "int \<Rightarrow> bool" where
  "int4 n = (- 2147483648 \<le> n \<and> n \<le> 2147483647)"

definition user_findUnique_email :: "bool \<Rightarrow> string \<Rightarrow> db \<Rightarrow> store_error + User option" where
  "user_findUnique_email ok em d =
     (if ok then Inr (find (\<lambda>u. u_email u = em) (users d)) else Inl Unavailable)"

definition rt_findUnique :: "bool \<Rightarrow> string \<Rightarrow> db \<Rightarrow> store_error + RefreshToken option" where
  "rt_findUnique ok tid d =
     (if ok then Inr (find (\<lambda>r. rt_id r = tid) (refreshTokens d)) else Inl Unavailable)"

text \<open>
  \<open>refreshToken.create\<close>: \<open>revoked\<close> and \<open>created_at\<close> take their column defaults; the
  primary key, the unique index on \<open>token\<close> and the foreign key to \<open>users\<close> are checked.
\<close>

definition rt_create ::
  "bool \<Rightarrow> int \<Rightarrow> string \<Rightarrow> token \<Rightarrow> string \<Rightarrow> int \<Rightarrow> db \<Rightarrow> store_error + db" where
  "rt_create ok ts tid tok uid ex d =
     (if \<not> ok then Inl Unavailable
      else if tid \<in> set (map rt_id (refreshTokens d)) then Inl UniqueViolation
      else if tok \<in> set (map rt_token (refreshTokens d)) then Inl UniqueViolation
      else if uid \<notin> set (map u_id (users d)) then Inl ForeignKeyViolation
      else Inr (d\<lparr>refreshTokens := refreshTokens d @
                  [\<lparr>rt_id = tid, rt_token = tok, rt_userId = uid, rt_revoked = False,
                    rt_expiresAt = ex, rt_createdAt = ts\<rparr>]\<rparr>))"

text \<open>\<open>refreshToken.update({where: {id}, data: {revoked: true}})\<close>.\<close>

definition rt_update_revoked :: "bool \<Rightarrow> string \<Rightarrow> db \<Rightarrow> store_error + db" where
  "rt_update_revoked ok tid d =
     (if \<not> ok then Inl Unavailable
      else case find (\<lambda>r. rt_id r = tid) (refreshTokens d) of
        None \<Rightarrow> Inl RecordNotFound
      | Some r \<Rightarrow>
          Inr (d\<lparr>refreshTokens :=
                   map (\<lambda>r. if rt_id r = tid then r\<lparr>rt_revoked := True\<rparr> else r)
                     (refreshTokens d)\<rparr>))"

text \<open>\<open>refreshToken.updateMany({where: {userId, revoked: false}, data: {revoked: true}})\<close>.\<close>

definition rt_updateMany_revoked :: "bool \<Rightarrow> string \<Rightarrow> db \<Rightarrow> store_error + db" where
  "rt_updateMany_revoked ok uid d =
     (if \<not> ok then Inl Unavailable
      else Inr (d\<lparr>refreshTokens :=
                   map (\<lambda>r. if rt_userId r = uid \<and> \<not> rt_revoked r
                             then r\<lparr>rt_revoked := True\<rparr> else r)
                     (refreshTokens d)\<rparr>))"

definition sa_findUnique :: "bool \<Rightarrow> string \<Rightarrow> db \<Rightarrow> store_error + SignupAttempt option" where
  "sa_findUnique ok aid d =
     (if ok then Inr (find (\<lambda>a. sa_id a = aid) (signupAttempts d)) else Inl Unavailable)"

text \<open>\<open>orderBy: {createdAt: 'desc'}\<close> followed by taking the first row.\<close>

fun latest :: "SignupAttempt list \<Rightarrow> SignupAttempt option" where
  "latest [] = None"
| "latest (a # as) =
     (case latest as of
        None \<Rightarrow> Some a
      | Some b \<Rightarrow> if sa_createdAt a < sa_createdAt b then Some b else Some a)"

definition sa_findFirst_inProgress ::
  "bool \<Rightarrow> int \<Rightarrow> string \<Rightarrow> db \<Rightarrow> store_error + SignupAttempt option" where
  "sa_findFirst_inProgress ok ts em d =
     (if ok
      then Inr (latest (filter (\<lambda>a. sa_email a = em \<and> sa_status a = IN_PROGRESS \<and>
                                       ts < sa_expiresAt a) (signupAttempts d)))
      else Inl Unavailable)"

text \<open>
  \<open>signupAttempt.create\<close> as the service calls it: the other columns take their
  defaults, \<open>updated_at\<close> is set by the client; the primary key and the unique index on
  (email, status) are checked.
\<close>

definition sa_create ::
  "bool \<Rightarrow> int \<Rightarrow> string \<Rightarrow> string \<Rightarrow> string \<Rightarrow> string \<Rightarrow> string \<Rightarrow> string \<Rightarrow>
   AttemptStatus \<Rightarrow> int \<Rightarrow> db \<Rightarrow> store_error + (SignupAttempt \<times> db)" where
  "sa_create ok ts aid em fname lname ph step st ex d =
     (let a = \<lparr>sa_id = aid, sa_email = em, sa_firstName = Some fname, sa_lastName = Some lname,
               sa_passwordHash = Some ph, sa_emailVerified = False,
               sa_phoneVerified = False, sa_mfaEnabled = False, sa_currentStep = step,
               sa_completedSteps = [], sa_status = st, sa_attemptCount = 1,
               sa_createdAt = ts, sa_updatedAt = ts, sa_expiresAt = ex,
               sa_completedAt = None\<rparr>
      in if \<not> ok then Inl Unavailable
         else if aid \<in> set (map sa_id (signupAttempts d)) then Inl UniqueViolation
         else if \<not> sa_unique (signupAttempts d @ [a]) then Inl UniqueViolation
         else Inr (a, d\<lparr>signupAttempts := signupAttempts d @ [a]\<rparr>))"

text \<open>
  \<open>signupAttempt.update({where: {id}, data})\<close>: \<open>updated_at\<close> is stamped by the client,
  \<open>data\<close> is applied, and the statement is rejected as a whole when the new row
  overflows \<open>attempt_count\<close> or breaks the unique index.
\<close>

definition sa_update ::
  "bool \<Rightarrow> int \<Rightarrow> string \<Rightarrow> (SignupAttempt \<Rightarrow> SignupAttempt) \<Rightarrow> db \<Rightarrow>
   store_error + (SignupAttempt \<times> db)" where
  "sa_update ok ts aid f d =
     (if \<not> ok then Inl Unavailable
      else case find (\<lambda>a. sa_id a = aid) (signupAttempts d) of
        None \<Rightarrow> Inl RecordNotFound
      | Some a \<Rightarrow>
          (let a' = f (a\<lparr>sa_updatedAt := ts\<rparr>);
               t' = map (\<lambda>r. if sa_id r = aid then a' else r) (signupAttempts d)
           in if \<not> int4 (sa_attemptCount a') then Inl OutOfRange
              else if \<not> sa_unique t' then Inl UniqueViolation
              else Inr (a', d\<lparr>signupAttempts := t'\<rparr>)))"

text \<open>
  \<open>signupAttempt.updateMany({where: {status: IN_PROGRESS, expiresAt: {lt: now}},
  data: {status: EXPIRED}})\<close>: one statement, all rows or none.
\<close>

definition sa_updateMany_expire :: "bool \<Rightarrow> int \<Rightarrow> db \<Rightarrow> store_error + (nat \<times> db)" where
  "sa_updateMany_expire ok ts d =
     (let hit = (\<lambda>a. sa_status a = IN_PROGRESS \<and> sa_expiresAt a < ts);
          t' = map (\<lambda>a. if hit a then a\<lparr>sa_updatedAt := ts, sa_status := EXPIRED\<rparr> else a)
                 (signupAttempts d)
      in if \<not> ok then Inl Unavailable
         else if \<not> sa_unique t' then Inl UniqueViolation
         else Inr (length (filter hit (signupAttempts d)), d\<lparr>signupAttempts := t'\<rparr>))"

section \<open>TokenService\<close>

definition generateAccessToken :: "config \<Rightarrow> env \<Rightarrow> User \<Rightarrow> exn + token" where
  "generateAccessToken cfg e user =
     (let payload = \<lparr>p_sub = Some (u_id user), p_email = Some (u_email user),
                     p_tokenId = None, p_attemptId = None, p_currentStep = None,
                     p_type = Some ''access''\<rparr>
      in case getOrThrow cfg ''JWT_ACCESS_SECRET'' of
           Inl x \<Rightarrow> Inl x
         | Inr secret \<Rightarrow> jwt_sign e payload secret (cfg_or cfg ''JWT_ACCESS_EXPIRY'' ''15m''))"

text \<open>
  \<open>setDate(getDate() + expiryDays)\<close> is the runtime's \<open>plusDays\<close>. An unreadable expiry
  (\<open>NaN\<close> days) and a result out of range make the date invalid, which the store
  client refuses. Every throw inside the \<open>try\<close> block leaves as the one
  internal-server-error.
\<close>

definition generateRefreshToken ::
  "config \<Rightarrow> env \<Rightarrow> string \<Rightarrow> db \<Rightarrow> (exn + (token \<times> int \<times> string)) \<times> db" where
  "generateRefreshToken cfg e userId d =
     (let tokenId = randomUUID e;
          expiryDays =
            parseInt10 (remove1 (CHR ''d'') (cfg_get cfg ''JWT_REFRESH_EXPIRY'' ''30d''));
          payload = \<lparr>p_sub = Some userId, p_email = None, p_tokenId = Some tokenId,
                     p_attemptId = None, p_currentStep = None, p_type = Some ''refresh''\<rparr>;
          failed = (Inl (InternalServerErrorException ''Failed to generate refresh token''), d)
      in case getOrThrow cfg ''JWT_REFRESH_SECRET'' of
           Inl x \<Rightarrow> failed
         | Inr secret \<Rightarrow>
             (case jwt_sign e payload secret (cfg_or cfg ''JWT_REFRESH_EXPIRY'' ''30d'') of
                Inl x \<Rightarrow> failed
              | Inr tok \<Rightarrow>
                  (case expiryDays of
                     None \<Rightarrow> failed
                   | Some n \<Rightarrow>
                       (case plusDays e (clock e) n of
                          None \<Rightarrow> failed
                        | Some expiresAt \<Rightarrow>
                            (case rt_create (storeUp e 0) (clock e) tokenId tok userId
                                    expiresAt d of
                               Inl x \<Rightarrow> failed
                             | Inr d' \<Rightarrow> (Inr (tok, expiresAt, tokenId), d'))))))"

definition generateSignupToken ::
  "config \<Rightarrow> env \<Rightarrow> string \<Rightarrow> string \<Rightarrow> string \<Rightarrow> exn + token" where
  "generateSignupToken cfg e attemptId email currentStep =
     (let payload = \<lparr>p_sub = None, p_email = Some email, p_tokenId = None,
                     p_attemptId = Some attemptId, p_currentStep = Some currentStep,
                     p_type = Some ''signup''\<rparr>
      in case getOrThrow cfg ''JWT_SIGNUP_SECRET'' of
           Inl x \<Rightarrow> Inl x
         | Inr secret \<Rightarrow> jwt_sign e payload secret (cfg_or cfg ''JWT_SIGNUP_EXPIRY'' ''2h''))"

definition verifyAccessToken :: "config \<Rightarrow> env \<Rightarrow> token \<Rightarrow> exn + jwt_payload" where
  "verifyAccessToken cfg e t =
     (let failed = Inl (UnauthorizedException ''Invalid or expired access token'')
      in case getOrThrow cfg ''JWT_ACCESS_SECRET'' of
           Inl x \<Rightarrow> failed
         | Inr secret \<Rightarrow>
             (case jwt_verify e t secret of
                Inl x \<Rightarrow> failed
              | Inr payload \<Rightarrow>
                  if p_type payload \<noteq> Some ''access'' then failed else Inr payload))"

definition verifyRefreshToken :: "config \<Rightarrow> env \<Rightarrow> token \<Rightarrow> exn + jwt_payload" where
  "verifyRefreshToken cfg e t =
     (let failed = Inl (UnauthorizedException ''Invalid or expired refresh token'')
      in case getOrThrow cfg ''JWT_REFRESH_SECRET'' of
           Inl x \<Rightarrow> failed
         | Inr secret \<Rightarrow>
             (case jwt_verify e t secret of
                Inl x \<Rightarrow> failed
              | Inr payload \<Rightarrow>
                  if p_type payload \<noteq> Some ''refresh'' then failed else Inr payload))"

definition verifySignupToken :: "config \<Rightarrow> env \<Rightarrow> token \<Rightarrow> exn + jwt_payload" where
  "verifySignupToken cfg e t =
     (let failed = Inl (UnauthorizedException ''Invalid or expired signup token'')
      in case getOrThrow cfg ''JWT_SIGNUP_SECRET'' of
           Inl x \<Rightarrow> failed
         | Inr secret \<Rightarrow>
             (case jwt_verify e t secret of
                Inl x \<Rightarrow> failed
              | Inr payload \<Rightarrow>
                  if p_type payload \<noteq> Some ''signup'' then failed else Inr payload))"

text \<open>
  The lookup is outside any \<open>try\<close>: a store error leaves as it is. The quotient of the
  two numbers is taken over the reals; a comparison with \<open>NaN\<close> is false.
\<close>

definition shouldRotateRefreshToken :: "config \<Rightarrow> env \<Rightarrow> string \<Rightarrow> db \<Rightarrow> exn + bool" where
  "shouldRotateRefreshToken cfg e tokenId d =
     (case rt_findUnique (storeUp e 0) tokenId d of
        Inl x \<Rightarrow> Inl (PrismaError x)
      | Inr None \<Rightarrow> Inr False
      | Inr (Some refreshToken) \<Rightarrow>
          (let rotationDays = parseInt10 (cfg_get cfg ''REFRESH_TOKEN_ROTATION_DAYS'' ''7'');
               daysSinceCreation =
                 real_of_int (clock e - rt_createdAt refreshToken) / (1000 * 60 * 60 * 24)
           in Inr (case rotationDays of
                     None \<Rightarrow> False
                   | Some n \<Rightarrow> real_of_int n \<le> daysSinceCreation)))"

definition rotateRefreshToken ::
  "config \<Rightarrow> env \<Rightarrow> string \<Rightarrow> string \<Rightarrow> db \<Rightarrow> (exn + (token \<times> int)) \<times> db" where
  "rotateRefreshToken cfg e oldTokenId userId d =
     (case rt_update_revoked (storeUp e 0) oldTokenId d of
        Inl x \<Rightarrow> (Inl (InternalServerErrorException ''Failed to rotate refresh token''), d)
      | Inr d1 \<Rightarrow>
          (case generateRefreshToken cfg (after 1 e) userId d1 of
             (Inl x, d2) \<Rightarrow>
               (Inl (InternalServerErrorException ''Failed to rotate refresh token''), d2)
           | (Inr (tok, expiresAt, tokenId), d2) \<Rightarrow> (Inr (tok, expiresAt), d2)))"

text \<open>The \<open>catch\<close> blocks of the two revocations log and return.\<close>

definition revokeRefreshToken :: "env \<Rightarrow> string \<Rightarrow> db \<Rightarrow> (exn + unit) \<times> db" where
  "revokeRefreshToken e tokenId d =
     (case rt_update_revoked (storeUp e 0) tokenId d of
        Inl x \<Rightarrow> (Inr (), d)
      | Inr d1 \<Rightarrow> (Inr (), d1))"

definition revokeAllUserRefreshTokens :: "env \<Rightarrow> string \<Rightarrow> db \<Rightarrow> (exn + unit) \<times> db" where
  "revokeAllUserRefreshTokens e userId d =
     (case rt_updateMany_revoked (storeUp e 0) userId d of
        Inl x \<Rightarrow> (Inr (), d)
      | Inr d1 \<Rightarrow> (Inr (), d1))"

text \<open>\<open>NaN\<close> is \<open>None\<close>; \<open>slice(-1)\<close> of the empty string is the empty string.\<close>

definition getAccessTokenExpiryInSeconds :: "config \<Rightarrow> int option" where
  "getAccessTokenExpiryInSeconds cfg =
     (let expiry = cfg_get cfg ''JWT_ACCESS_EXPIRY'' ''15m'';
          v = parseInt10 (butlast expiry);
          unit = (if expiry = [] then [] else [last expiry])
      in if unit = ''s'' then v
         else if unit = ''m'' then map_option (\<lambda>n. n * 60) v
         else if unit = ''h'' then map_option (\<lambda>n. n * 60 * 60) v
         else if unit = ''d'' then map_option (\<lambda>n. n * 24 * 60 * 60) v
         else Some 900)"

section \<open>SignupAttemptService\<close>

definition checkUserExists :: "env \<Rightarrow> string \<Rightarrow> db \<Rightarrow> exn + bool" where
  "checkUserExists e email d =
     (case user_findUnique_email (storeUp e 0) (toLowerCase e email) d of
        Inl x \<Rightarrow> Inl (PrismaError x)
      | Inr user \<Rightarrow> Inr (user \<noteq> None))"

definition findInProgressAttempt :: "env \<Rightarrow> string \<Rightarrow> db \<Rightarrow> SignupAttempt option" where
  "findInProgressAttempt e email d =
     (case sa_findFirst_inProgress (storeUp e 0) (clock e) (toLowerCase e email) d of
        Inl x \<Rightarrow> None
      | Inr attempt \<Rightarrow> attempt)"

text \<open>
  \<open>setHours(getHours() + 2)\<close> is the runtime's \<open>plusHours\<close>; an invalid date is refused
  by the store client. The \<open>catch\<close> block lets a conflict through and turns every other
  throw into the internal-server-error.
\<close>

definition createSignupAttempt ::
  "config \<Rightarrow> env \<Rightarrow> string \<Rightarrow> string \<Rightarrow> string \<Rightarrow> string \<Rightarrow> db \<Rightarrow>
   (exn + SignupAttempt) \<times> db" where
  "createSignupAttempt cfg e email firstName lastName password d =
     (let failed = (Inl (InternalServerErrorException ''Failed to create signup attempt''), d)
      in case checkUserExists e email d of
           Inl x \<Rightarrow> failed
         | Inr userExists \<Rightarrow>
             if userExists
             then (Inl (ConflictException ''An account with this email already exists''), d)
             else
               (let saltRounds = parseInt10 (cfg_get cfg ''BCRYPT_SALT_ROUNDS'' ''10'')
                in case bcrypt_hash e password saltRounds of
                     None \<Rightarrow> failed
                   | Some passwordHash \<Rightarrow>
                       (case plusHours e (clock e) 2 of
                          None \<Rightarrow> failed
                        | Some expiresAt \<Rightarrow>
                            (case sa_create (storeUp e 1) (clock e) (randomUUID e)
                                    (toLowerCase e email) firstName lastName passwordHash
                                    ''email_verification'' IN_PROGRESS expiresAt d of
                               Inl x \<Rightarrow> failed
                             | Inr (attempt, d') \<Rightarrow> (Inr attempt, d')))))"

definition resumeSignupAttempt ::
  "env \<Rightarrow> SignupAttempt \<Rightarrow> db \<Rightarrow> (exn + SignupAttempt) \<times> db" where
  "resumeSignupAttempt e existingAttempt d =
     (case sa_update (storeUp e 0) (clock e) (sa_id existingAttempt)
             (\<lambda>a. a\<lparr>sa_attemptCount := sa_attemptCount existingAttempt + 1,
                     sa_updatedAt := clock e\<rparr>) d of
        Inl x \<Rightarrow> (Inl (InternalServerErrorException ''Failed to resume signup attempt''), d)
      | Inr (updatedAttempt, d') \<Rightarrow> (Inr updatedAttempt, d'))"

text \<open>\<open>if (completedStep)\<close> is false for an absent and for an empty step.\<close>

definition updateSignupStep ::
  "env \<Rightarrow> string \<Rightarrow> string \<Rightarrow> string option \<Rightarrow> db \<Rightarrow> (exn + SignupAttempt) \<times> db" where
  "updateSignupStep e attemptId newStep completedStep d =
     (let failed = (Inl (InternalServerErrorException ''Failed to update signup step''), d)
      in case completedStep of
           Some step \<Rightarrow>
             if step = [] then
               (case sa_update (storeUp e 0) (clock e) attemptId
                       (\<lambda>a. a\<lparr>sa_currentStep := newStep, sa_updatedAt := clock e\<rparr>) d of
                  Inl x \<Rightarrow> failed
                | Inr (updatedAttempt, d') \<Rightarrow> (Inr updatedAttempt, d'))
             else
               (case sa_findUnique (storeUp e 0) attemptId d of
                  Inl x \<Rightarrow> failed
                | Inr attempt \<Rightarrow>
                    (let steps =
                           (case attempt of
                              None \<Rightarrow> None
                            | Some a \<Rightarrow>
                                if step \<in> set (sa_completedSteps a) then None
                                else Some (sa_completedSteps a @ [step]))
                     in case sa_update (storeUp e 1) (clock e) attemptId
                               (\<lambda>a. (case steps of
                                        None \<Rightarrow> a
                                      | Some cs \<Rightarrow> a\<lparr>sa_completedSteps := cs\<rparr>)
                                     \<lparr>sa_currentStep := newStep, sa_updatedAt := clock e\<rparr>) d of
                          Inl x \<Rightarrow> failed
                        | Inr (updatedAttempt, d') \<Rightarrow> (Inr updatedAttempt, d')))
         | None \<Rightarrow>
             (case sa_update (storeUp e 0) (clock e) attemptId
                     (\<lambda>a. a\<lparr>sa_currentStep := newStep, sa_updatedAt := clock e\<rparr>) d of
                Inl x \<Rightarrow> failed
              | Inr (updatedAttempt, d') \<Rightarrow> (Inr updatedAttempt, d')))"

definition completeSignupAttempt :: "env \<Rightarrow> string \<Rightarrow> db \<Rightarrow> (exn + unit) \<times> db" where
  "completeSignupAttempt e attemptId d =
     (case sa_update (storeUp e 0) (clock e) attemptId
             (\<lambda>a. a\<lparr>sa_status := COMPLETED, sa_completedAt := Some (clock e)\<rparr>) d of
        Inl x \<Rightarrow> (Inl (InternalServerErrorException ''Failed to complete signup attempt''), d)
      | Inr (a, d') \<Rightarrow> (Inr (), d'))"

text \<open>The \<open>catch\<close> block logs and returns 0.\<close>

definition markExpiredAttempts :: "env \<Rightarrow> db \<Rightarrow> (exn + nat) \<times> db" where
  "markExpiredAttempts e d =
     (case sa_updateMany_expire (storeUp e 0) (clock e) d of
        Inl x \<Rightarrow> (Inr 0, d)
      | Inr (n, d') \<Rightarrow> (Inr n, d'))"

definition getSignupAttempt :: "env \<Rightarrow> string \<Rightarrow> db \<Rightarrow> SignupAttempt option" where
  "getSignupAttempt e attemptId d =
     (case sa_findUnique (storeUp e 0) attemptId d of
        Inl x \<Rightarrow> None
      | Inr attempt \<Rightarrow> attempt)"

section \<open>AuthService\<close>

record UserDataDto =
  ud_id :: string
  ud_email :: string
  ud_firstName :: string
  ud_lastName :: string
  ud_emailVerified :: bool
  ud_status :: UserStatus

text \<open>
  The two response shapes. A success carries the access token, the user, \<open>expiresIn\<close>
  (\<open>None\<close> for \<open>NaN\<close>) and, after a rotation, the new refresh token; a failure carries
  the message and \<open>redirectTo\<close>.
\<close>

datatype RefreshResponseDto =
  RefreshSuccessResponseDto token UserDataDto "int option" "token option"
  | RefreshFailureResponseDto string "string option"

record SignupDto =
  dto_email :: string
  dto_firstName :: string
  dto_lastName :: string
  dto_password :: string

text \<open>
  A success carries \<open>signupToken\<close>, \<open>nextStep\<close>, \<open>attemptId\<close>, \<open>resumedSession\<close> and
  \<open>completedSteps\<close>; a failure the message and \<open>statusCode\<close>.
\<close>

datatype SignupResponseDto =
  SignupSuccessResponseDto token string string "bool option" "string list option"
  | SignupFailureResponseDto string "int option"

definition createUserData :: "User \<Rightarrow> UserDataDto" where
  "createUserData user =
     \<lparr>ud_id = u_id user, ud_email = u_email user, ud_firstName = u_firstName user,
      ud_lastName = u_lastName user, ud_emailVerified = u_emailVerified user,
      ud_status = u_status user\<rparr>"

text \<open>
  The body of the \<open>try\<close> block of \<open>refreshApplication\<close>. \<open>findUnique\<close> with
  \<open>include: {user: true}\<close> is one store access; a payload without \<open>tokenId\<close> is refused
  by the store client, and a record without its user makes \<open>user.status\<close> throw.
\<close>

definition refreshApplication_try ::
  "config \<Rightarrow> env \<Rightarrow> token \<Rightarrow> db \<Rightarrow> (exn + RefreshResponseDto) \<times> db" where
  "refreshApplication_try cfg e refreshToken d =
     (case verifyRefreshToken cfg e refreshToken of
        Inl x \<Rightarrow> (Inl x, d)
      | Inr payload \<Rightarrow>
          (case p_tokenId payload of
             None \<Rightarrow> (Inl (PrismaError ValidationError), d)
           | Some tokenId \<Rightarrow>
               (case rt_findUnique (storeUp e 0) tokenId d of
                  Inl x \<Rightarrow> (Inl (PrismaError x), d)
                | Inr None \<Rightarrow>
                    (Inr (RefreshFailureResponseDto ''Invalid session'' (Some ''/login'')), d)
                | Inr (Some tokenRecord) \<Rightarrow>
                    if rt_revoked tokenRecord then
                      (Inr (RefreshFailureResponseDto ''Session has been revoked''
                              (Some ''/login'')), d)
                    else if rt_expiresAt tokenRecord < clock e then
                      (Inr (RefreshFailureResponseDto ''Session has expired''
                              (Some ''/login'')), d)
                    else
                      (case find (\<lambda>u. u_id u = rt_userId tokenRecord) (users d) of
                         None \<Rightarrow> (Inl TypeError, d)
                       | Some user \<Rightarrow>
                           if u_status user \<noteq> ACTIVE then
                             (Inr (RefreshFailureResponseDto ''User account is not active''
                                     (Some ''/login'')), d)
                           else
                             (case generateAccessToken cfg e user of
                                Inl x \<Rightarrow> (Inl x, d)
                              | Inr accessToken \<Rightarrow>
                                  (let expiresIn = getAccessTokenExpiryInSeconds cfg
                                   in case shouldRotateRefreshToken cfg (after 1 e) tokenId d of
                                        Inl x \<Rightarrow> (Inl x, d)
                                      | Inr shouldRotate \<Rightarrow>
                                          if shouldRotate then
                                            (case rotateRefreshToken cfg (after 2 e) tokenId
                                                    (u_id user) d of
                                               (Inl x, d') \<Rightarrow> (Inl x, d')
                                             | (Inr (tok, expiresAt), d') \<Rightarrow>
                                                 (Inr (RefreshSuccessResponseDto accessToken
                                                         (createUserData user) expiresIn
                                                         (if tok = Opaque [] then None
                                                          else Some tok)), d'))
                                          else
                                            (Inr (RefreshSuccessResponseDto accessToken
                                                    (createUserData user) expiresIn None),
                                             d)))))))"

text \<open>
  \<open>!refreshToken\<close> holds for an absent and for an empty string. The \<open>catch\<close> block turns
  an unauthorized error into a failure with its message and every other throw into
  the generic failure.
\<close>

definition refreshApplication ::
  "config \<Rightarrow> env \<Rightarrow> token option \<Rightarrow> db \<Rightarrow> RefreshResponseDto \<times> db" where
  "refreshApplication cfg e refreshToken d =
     (case refreshToken of
        None \<Rightarrow> (RefreshFailureResponseDto ''No session found'' (Some ''/login''), d)
      | Some t \<Rightarrow>
          if t = Opaque [] then
            (RefreshFailureResponseDto ''No session found'' (Some ''/login''), d)
          else
            (case refreshApplication_try cfg e t d of
               (Inr response, d') \<Rightarrow> (response, d')
             | (Inl (UnauthorizedException m), d') \<Rightarrow>
                 (RefreshFailureResponseDto m (Some ''/login''), d')
             | (Inl x, d') \<Rightarrow>
                 (RefreshFailureResponseDto ''An error occurred'' (Some ''/login''), d')))"

text \<open>The body of the \<open>try\<close> block of \<open>signup\<close>.\<close>

definition signup_try ::
  "config \<Rightarrow> env \<Rightarrow> SignupDto \<Rightarrow> db \<Rightarrow> (exn + SignupResponseDto) \<times> db" where
  "signup_try cfg e signupDto d =
     (let email = dto_email signupDto
      in case checkUserExists e email d of
           Inl x \<Rightarrow> (Inl x, d)
         | Inr userExists \<Rightarrow>
             if userExists then
               (Inr (SignupFailureResponseDto ''An account with this email already exists''
                       (Some 409)), d)
             else
               (case findInProgressAttempt (after 1 e) email d of
                  Some existingAttempt \<Rightarrow>
                    (case resumeSignupAttempt (after 2 e) existingAttempt d of
                       (Inl x, d') \<Rightarrow> (Inl x, d')
                     | (Inr resumedAttempt, d') \<Rightarrow>
                         (case generateSignupToken cfg e (sa_id resumedAttempt)
                                 (sa_email resumedAttempt) (sa_currentStep resumedAttempt) of
                            Inl x \<Rightarrow> (Inl x, d')
                          | Inr signupToken \<Rightarrow>
                              (Inr (SignupSuccessResponseDto signupToken
                                      (sa_currentStep resumedAttempt) (sa_id resumedAttempt)
                                      (Some True)
                                      (Some (sa_completedSteps resumedAttempt))), d')))
                | None \<Rightarrow>
                    (case createSignupAttempt cfg (after 2 e) email
                            (dto_firstName signupDto) (dto_lastName signupDto)
                            (dto_password signupDto) d of
                       (Inl x, d') \<Rightarrow> (Inl x, d')
                     | (Inr attempt, d') \<Rightarrow>
                         (case generateSignupToken cfg e (sa_id attempt) (sa_email attempt)
                                 (sa_currentStep attempt) of
                            Inl x \<Rightarrow> (Inl x, d')
                          | Inr signupToken \<Rightarrow>
                              (Inr (SignupSuccessResponseDto signupToken
                                      (sa_currentStep attempt) (sa_id attempt) None None),
                               d')))))"

definition signup :: "config \<Rightarrow> env \<Rightarrow> SignupDto \<Rightarrow> db \<Rightarrow> SignupResponseDto \<times> db" where
  "signup cfg e signupDto d =
     (case signup_try cfg e signupDto d of
        (Inr response, d') \<Rightarrow> (response, d')
      | (Inl (ConflictException m), d') \<Rightarrow> (SignupFailureResponseDto m (Some 409), d')
      | (Inl x, d') \<Rightarrow>
          (SignupFailureResponseDto ''An error occurred during signup'' (Some 500), d'))"

section \<open>The signup-attempt operations as a transition system\<close>

datatype action =
  Create config env string string string string
  | Resume env SignupAttempt
  | AdvanceStep env string string "string option"
  | Complete env string
  | SweepExpired env

fun step :: "action \<Rightarrow> db \<Rightarrow> db" where
  "step (Create cfg e email firstName lastName password) d =
     snd (createSignupAttempt cfg e email firstName lastName password d)"
| "step (Resume e existingAttempt) d = snd (resumeSignupAttempt e existingAttempt d)"
| "step (AdvanceStep e attemptId newStep completedStep) d =
     snd (updateSignupStep e attemptId newStep completedStep d)"
| "step (Complete e attemptId) d = snd (completeSignupAttempt e attemptId d)"
| "step (SweepExpired e) d = snd (markExpiredAttempts e d)"

text \<open>
  The states the operations reach from a store whose table of signup attempts is
  empty (users and refresh tokens are written by other flows and may be anything).
\<close>

inductive reach :: "db \<Rightarrow> bool" where
  start: "signupAttempts d = [] \<Longrightarrow> reach d"
| next_state: "reach d \<Longrightarrow> reach (step a d)"

text \<open>The rows of one email in one status.\<close>

definition rowsOf :: "string \<Rightarrow> AttemptStatus \<Rightarrow> db \<Rightarrow> SignupAttempt list" where
  "rowsOf em st d = filter (\<lambda>a. sa_email a = em \<and> sa_status a = st) (signupAttempts d)"

text \<open>Whether a result is the conflict exception.\<close>

fun isConflict :: "exn + 'a \<Rightarrow> bool" where
  "isConflict (Inl (ConflictException m)) = True"
| "isConflict r = False"

text \<open>Whether a refresh response is the success shape.\<close>

fun isRefreshSuccess :: "RefreshResponseDto \<Rightarrow> bool" where
  "isRefreshSuccess (RefreshSuccessResponseDto t u x n) = True"
| "isRefreshSuccess (RefreshFailureResponseDto m r) = False"

section \<open>Concrete stores and environments\<close>

definition user1 :: User where
  "user1 = \<lparr>u_id = ''u1'', u_email = ''a@b'', u_firstName = ''A'', u_lastName = ''B'',
            u_passwordHash = ''h'', u_emailVerified = True, u_status = ACTIVE,
            u_createdAt = 0, u_updatedAt = 0\<rparr>"

text \<open>\<open>toLowerCase\<close> on strings of ASCII characters.\<close>

definition asciiLowerChar :: "char \<Rightarrow> char" where
  "asciiLowerChar c =
     (case map_of (zip ''ABCDEFGHIJKLMNOPQRSTUVWXYZ'' ''abcdefghijklmnopqrstuvwxyz'') c of
        None \<Rightarrow> c | Some l \<Rightarrow> l)"

definition asciiLower :: "string \<Rightarrow> string" where
  "asciiLower s = map asciiLowerChar s"

text \<open>The three expiry settings the source uses as defaults, in seconds.\<close>

definition readSpan :: "string \<Rightarrow> int option" where
  "readSpan s =
     (if s = ''15m'' then Some 900
      else if s = ''2h'' then Some 7200
      else if s = ''30d'' then Some 2592000
      else None)"

text \<open>A time value is a valid date within 8640000000000000 ms of the epoch.\<close>

definition validDate :: "int \<Rightarrow> int option" where
  "validDate t = (if - 8640000000000000 \<le> t \<and> t \<le> 8640000000000000 then Some t else None)"

text \<open>
  A server in a time zone without clock changes, whose store answers every access.
\<close>

definition envAt :: "int \<Rightarrow> string \<Rightarrow> env" where
  "envAt t i = \<lparr>clock = t, randomUUID = i, bcrypt_hash = (\<lambda>pw r. Some ''h''),
               storeUp = (\<lambda>n. True), timespan = readSpan, toLowerCase = asciiLower,
               plusDays = (\<lambda>t n. validDate (t + n * 86400000)),
               plusHours = (\<lambda>t n. validDate (t + n * 3600000))\<rparr>"

definition envDown :: "int \<Rightarrow> string \<Rightarrow> env" where
  "envDown t i = (envAt t i)\<lparr>storeUp := (\<lambda>n. False)\<rparr>"

definition rtoken1 :: RefreshToken where
  "rtoken1 = \<lparr>rt_id = ''t1'', rt_token = Opaque ''x'', rt_userId = ''u1'',
              rt_revoked = False, rt_expiresAt = 2592000000, rt_createdAt = 0\<rparr>"

definition db1 :: db where
  "db1 = \<lparr>users = [user1], refreshTokens = [rtoken1], signupAttempts = []\<rparr>"


definition db_empty :: db where
  "db_empty = \<lparr>users = [], refreshTokens = [], signupAttempts = []\<rparr>"

text \<open>The attempt a first signup for \<open>a@b\<close> at time 1000 creates.\<close>

definition attempt1 :: SignupAttempt where
  "attempt1 = \<lparr>sa_id = ''i1'', sa_email = ''a@b'', sa_firstName = Some ''F'',
               sa_lastName = Some ''L'', sa_passwordHash = Some ''h'',
               sa_emailVerified = False, sa_phoneVerified = False, sa_mfaEnabled = False,
               sa_currentStep = ''email_verification'', sa_completedSteps = [],
               sa_status = IN_PROGRESS, sa_attemptCount = 1, sa_createdAt = 1000,
               sa_updatedAt = 1000, sa_expiresAt = 7201000, sa_completedAt = None\<rparr>"

definition db_live :: db where
  "db_live = \<lparr>users = [], refreshTokens = [], signupAttempts = [attempt1]\<rparr>"

text \<open>
  The same email later: the first attempt was swept at 7201001, a second attempt was
  created at 7201002.
\<close>

definition attempt2 :: SignupAttempt where
  "attempt2 = attempt1\<lparr>sa_id := ''i2'', sa_createdAt := 7201002, sa_updatedAt := 7201002,
                        sa_expiresAt := 14401002\<rparr>"

definition db_swept :: db where
  "db_swept = \<lparr>users = [], refreshTokens = [],
               signupAttempts = [attempt1\<lparr>sa_updatedAt := 7201001, sa_status := EXPIRED\<rparr>]\<rparr>"

definition db_two :: db where
  "db_two = \<lparr>users = [], refreshTokens = [],
             signupAttempts = [attempt1\<lparr>sa_updatedAt := 7201001, sa_status := EXPIRED\<rparr>,
                               attempt2]\<rparr>"

text \<open>
  The same email again: the first attempt was completed at 5000 (no user row was
  written), and a further attempt was created at 5001.
\<close>

definition attempt3 :: SignupAttempt where
  "attempt3 = attempt1\<lparr>sa_id := ''i3'', sa_createdAt := 5001, sa_updatedAt := 5001,
                        sa_expiresAt := 7205001\<rparr>"

definition db_done :: db where
  "db_done = \<lparr>users = [], refreshTokens = [],
              signupAttempts = [attempt1\<lparr>sa_updatedAt := 5000, sa_status := COMPLETED,
                                          sa_completedAt := Some 5000\<rparr>,
                                attempt3]\<rparr>"

definition cfg1 :: config where
  "cfg1 = [''JWT_ACCESS_SECRET'' \<mapsto> ''ka'', ''JWT_REFRESH_SECRET'' \<mapsto> ''kr'',
           ''JWT_SIGNUP_SECRET'' \<mapsto> ''ks'']"

definition dto1 :: SignupDto where
  "dto1 = \<lparr>dto_email = ''A@b'', dto_firstName = ''F'', dto_lastName = ''L'',
            dto_password = ''pw''\<rparr>"

text \<open>An environment whose store answers the first access only.\<close>

definition envFirstOnly :: "int \<Rightarrow> string \<Rightarrow> env" where
  "envFirstOnly t i = (envAt t i)\<lparr>storeUp := (\<lambda>n. n = 0)\<rparr>"

text \<open>A suspended user with a live, unrevoked refresh token.\<close>

definition user2 :: User where
  "user2 = \<lparr>u_id = ''u2'', u_email = ''c@d'', u_firstName = ''C'', u_lastName = ''D'',
            u_passwordHash = ''h'', u_emailVerified = True, u_status = SUSPENDED,
            u_createdAt = 0, u_updatedAt = 0\<rparr>"

definition tok2 :: token where
  "tok2 = Signed \<lparr>p_sub = Some ''u2'', p_email = None, p_tokenId = Some ''t3'',
                 p_attemptId = None, p_currentStep = None, p_type = Some ''refresh''\<rparr>
            ''kr'' 0 2592000"

definition rtoken2 :: RefreshToken where
  "rtoken2 = \<lparr>rt_id = ''t3'', rt_token = tok2, rt_userId = ''u2'', rt_revoked = False,
              rt_expiresAt = 2592000000, rt_createdAt = 0\<rparr>"

definition db2 :: db where
  "db2 = \<lparr>users = [user1, user2], refreshTokens = [rtoken1, rtoken2], signupAttempts = []\<rparr>"

text \<open>What rotating \<open>t1\<close> at time 700000000 issues under \<open>cfg1\<close>.\<close>

definition tok_new :: token where
  "tok_new = Signed \<lparr>p_sub = Some ''u1'', p_email = None, p_tokenId = Some ''t2'',
                    p_attemptId = None, p_currentStep = None, p_type = Some ''refresh''\<rparr>
               ''kr'' 700000 3292000"

definition rtoken_new :: RefreshToken where
  "rtoken_new = \<lparr>rt_id = ''t2'', rt_token = tok_new, rt_userId = ''u1'', rt_revoked = False,
                 rt_expiresAt = 3292000000, rt_createdAt = 700000000\<rparr>"

text \<open>A configuration whose refresh and signup keys coincide.\<close>

definition cfg_shared :: config where
  "cfg_shared = [''JWT_REFRESH_SECRET'' \<mapsto> ''kr'', ''JWT_SIGNUP_SECRET'' \<mapsto> ''kr'']"

text \<open>The signup token issued at time 1000 under \<open>cfg_shared\<close> for \<open>attempt1\<close>.\<close>

definition tok_signup :: token where
  "tok_signup = Signed \<lparr>p_sub = None, p_email = Some ''a@b'', p_tokenId = None,
                       p_attemptId = Some ''i1'',
                       p_currentStep = Some ''email_verification'',
                       p_type = Some ''signup''\<rparr> ''kr'' 1 7201"

text \<open>What rotating \<open>t1\<close> at time 0, the millisecond of its creation, issues.\<close>

definition tok_same :: token where
  "tok_same = Signed \<lparr>p_sub = Some ''u1'', p_email = None, p_tokenId = Some ''t2'',
                     p_attemptId = None, p_currentStep = None, p_type = Some ''refresh''\<rparr>
                ''kr'' 0 2592000"

definition rtoken_same :: RefreshToken where
  "rtoken_same = \<lparr>rt_id = ''t2'', rt_token = tok_same, rt_userId = ''u1'', rt_revoked = False,
                  rt_expiresAt = 2592000000, rt_createdAt = 0\<rparr>"

section \<open>Rotation threshold\<close>

lemma parseInt10_7: "parseInt10 ''7'' = Some 7"
  by (simp add: parseInt10_def isWhite_def isDigit_def digitVal_def)

lemma days_le_iff:
  "(real_of_int n * 86400000 \<le> real_of_int a - real_of_int b) = (n * 86400000 \<le> a - b)"
proof -
  have "(real_of_int (n * 86400000) \<le> real_of_int (a - b)) = (n * 86400000 \<le> a - b)"
    by (rule of_int_le_iff)
  then show ?thesis by simp
qed

text \<open>
  Claim C5. When the store answers and the configured rotation threshold reads as \<open>n\<close>
  days, \<open>shouldRotateRefreshToken\<close> returns a boolean, which is true if and only if a
  refresh-token row with the given id exists and its age \<open>clock - createdAt\<close> is at least
  \<open>n\<close> days (a row aged exactly \<open>n\<close> days gives true); for an id without a row it
  returns false and raises nothing.
\<close>

theorem shouldRotate_iff_age_ge_threshold:
  assumes up: "storeUp e 0"
      and days: "parseInt10 (cfg_get cfg ''REFRESH_TOKEN_ROTATION_DAYS'' ''7'') = Some n"
  shows "(shouldRotateRefreshToken cfg e tokenId d = Inr True \<or>
          shouldRotateRefreshToken cfg e tokenId d = Inr False) \<and>
         (shouldRotateRefreshToken cfg e tokenId d = Inr True \<longleftrightarrow>
            (\<exists>r. find (\<lambda>r. rt_id r = tokenId) (refreshTokens d) = Some r \<and>
                 n * 86400000 \<le> clock e - rt_createdAt r)) \<and>
         (find (\<lambda>r. rt_id r = tokenId) (refreshTokens d) = None \<longrightarrow>
            shouldRotateRefreshToken cfg e tokenId d = Inr False)"
proof (cases "find (\<lambda>r. rt_id r = tokenId) (refreshTokens d)")
  case None
  then show ?thesis using up
    by (simp add: shouldRotateRefreshToken_def rt_findUnique_def)
next
  case (Some r)
  then have "shouldRotateRefreshToken cfg e tokenId d =
             Inr (n * 86400000 \<le> clock e - rt_createdAt r)"
    using up days
    by (simp add: shouldRotateRefreshToken_def rt_findUnique_def Let_def days_le_iff)
  with Some show ?thesis by auto
qed

text \<open>
  With the default threshold of 7 days: a row aged exactly 7 days rotates, one aged a
  millisecond less does not, and a missing id gives false.
\<close>

theorem shouldRotate_boundary_witness:
  "shouldRotateRefreshToken Map.empty (envAt 604800000 ''n'') ''t1'' db1 = Inr True \<and>
   shouldRotateRefreshToken Map.empty (envAt 604799999 ''n'') ''t1'' db1 = Inr False \<and>
   shouldRotateRefreshToken Map.empty (envAt 604800000 ''n'') ''t9'' db1 = Inr False"
proof -
  have d: "parseInt10 (cfg_get Map.empty ''REFRESH_TOKEN_ROTATION_DAYS'' ''7'') = Some 7"
    by (simp add: cfg_get_def parseInt10_7)
  have u: "storeUp (envAt t i) 0" for t i by (simp add: envAt_def validDate_def readSpan_def)
  have f1: "find (\<lambda>r. rt_id r = ''t1'') (refreshTokens db1) = Some rtoken1"
    by (simp add: db1_def rtoken1_def)
  have f9: "find (\<lambda>r. rt_id r = ''t9'') (refreshTokens db1) = None"
    by (simp add: db1_def rtoken1_def)
  have c: "rt_createdAt rtoken1 = 0" by (simp add: rtoken1_def)
  note a = shouldRotate_iff_age_ge_threshold [OF u d, of 604800000 "''n''" "''t1''" db1]
  note b = shouldRotate_iff_age_ge_threshold [OF u d, of 604799999 "''n''" "''t1''" db1]
  note m = shouldRotate_iff_age_ge_threshold [OF u d, of 604800000 "''n''" "''t9''" db1]
  have A: "shouldRotateRefreshToken Map.empty (envAt 604800000 ''n'') ''t1'' db1 = Inr True"
    using a f1 c by (simp add: envAt_def validDate_def readSpan_def)
  have B: "shouldRotateRefreshToken Map.empty (envAt 604799999 ''n'') ''t1'' db1 = Inr False"
    using b f1 c by (auto simp: envAt_def validDate_def readSpan_def)
  have M: "shouldRotateRefreshToken Map.empty (envAt 604800000 ''n'') ''t9'' db1 = Inr False"
    using m f9 by simp
  from A B M show ?thesis by simp
qed


section \<open>The unique index on (email, status)\<close>

lemma filter_key_le1:
  "distinct (map f xs) \<Longrightarrow> length (filter (\<lambda>x. f x = k) xs) \<le> 1"
proof (induction xs)
  case Nil
  then show ?case by simp
next
  case (Cons x xs)
  show ?case
  proof (cases "f x = k")
    case True
    with Cons.prems have "k \<notin> f ` set xs" by auto
    then have "filter (\<lambda>x. f x = k) xs = []" by (auto simp: filter_empty_conv)
    with True show ?thesis by simp
  next
    case False
    with Cons show ?thesis by simp
  qed
qed

lemma sa_unique_rowsOf: "sa_unique (signupAttempts d) \<Longrightarrow> length (rowsOf em st d) \<le> 1"
proof -
  assume u: "sa_unique (signupAttempts d)"
  have "rowsOf em st d =
        filter (\<lambda>a. (sa_email a, sa_status a) = (em, st)) (signupAttempts d)"
    by (simp add: rowsOf_def)
  with filter_key_le1 [of "\<lambda>a. (sa_email a, sa_status a)" "signupAttempts d" "(em, st)"] u
  show ?thesis by (simp add: sa_unique_def)
qed

lemma sa_create_unique:
  "sa_create ok ts aid em fname lname ph stp st ex d = Inr (a, d') \<Longrightarrow>
   sa_unique (signupAttempts d')"
  by (auto simp: sa_create_def Let_def split: if_splits)

lemma sa_update_unique:
  "sa_update ok ts aid f d = Inr (a, d') \<Longrightarrow> sa_unique (signupAttempts d')"
  by (auto simp: sa_update_def Let_def split: if_splits option.splits)

lemma sa_updateMany_expire_unique:
  "sa_updateMany_expire ok ts d = Inr (n, d') \<Longrightarrow> sa_unique (signupAttempts d')"
  by (auto simp: sa_updateMany_expire_def Let_def split: if_splits)

lemma create_keeps_unique:
  "sa_unique (signupAttempts d) \<Longrightarrow>
   sa_unique (signupAttempts (snd (createSignupAttempt cfg e em f l p d)))"
  by (auto simp: createSignupAttempt_def Let_def dest: sa_create_unique
           split: sum.splits option.splits prod.splits if_splits)

lemma resume_keeps_unique:
  "sa_unique (signupAttempts d) \<Longrightarrow>
   sa_unique (signupAttempts (snd (resumeSignupAttempt e a d)))"
  by (auto simp: resumeSignupAttempt_def dest: sa_update_unique
           split: sum.splits prod.splits)

lemma advance_keeps_unique:
  "sa_unique (signupAttempts d) \<Longrightarrow>
   sa_unique (signupAttempts (snd (updateSignupStep e aid ns cs d)))"
  by (auto simp: updateSignupStep_def Let_def dest: sa_update_unique
           split: sum.splits prod.splits option.splits)

lemma complete_keeps_unique:
  "sa_unique (signupAttempts d) \<Longrightarrow>
   sa_unique (signupAttempts (snd (completeSignupAttempt e aid d)))"
  by (auto simp: completeSignupAttempt_def dest: sa_update_unique
           split: sum.splits prod.splits)

lemma sweep_keeps_unique:
  "sa_unique (signupAttempts d) \<Longrightarrow>
   sa_unique (signupAttempts (snd (markExpiredAttempts e d)))"
  by (auto simp: markExpiredAttempts_def dest: sa_updateMany_expire_unique
           split: sum.splits prod.splits)

lemma step_keeps_unique:
  "sa_unique (signupAttempts d) \<Longrightarrow> sa_unique (signupAttempts (step a d))"
  by (cases a)
     (simp_all add: create_keeps_unique resume_keeps_unique advance_keeps_unique
        complete_keeps_unique sweep_keeps_unique)

lemma reach_unique: "reach d \<Longrightarrow> sa_unique (signupAttempts d)"
  by (induction rule: reach.induct) (simp_all add: sa_unique_def step_keeps_unique [unfolded sa_unique_def])

section \<open>Scenarios, evaluated\<close>

lemma envAt_lower: "toLowerCase (envAt t i) = asciiLower"
  by (simp add: envAt_def)

lemma lower_ab: "asciiLower ''A@b'' = ''a@b''" "asciiLower ''a@b'' = ''a@b''"
  by (simp_all add: asciiLower_def asciiLowerChar_def)

lemma parseInt10_10: "parseInt10 ''10'' = Some 10"
  by (simp add: parseInt10_def isWhite_def isDigit_def digitVal_def)

lemma scen_create1:
  "createSignupAttempt Map.empty (envAt 1000 ''i1'') ''A@b'' ''F'' ''L'' ''pw'' db_empty
   = (Inr attempt1, db_live)"
  by (simp add: createSignupAttempt_def checkUserExists_def user_findUnique_email_def
      envAt_lower lower_ab envAt_def validDate_def readSpan_def db_empty_def db_live_def attempt1_def sa_create_def sa_unique_def
      cfg_get_def Let_def)

lemma scen_sweep1:
  "markExpiredAttempts (envAt 7201001 ''x'') db_live = (Inr 1, db_swept)"
  by (simp add: markExpiredAttempts_def sa_updateMany_expire_def envAt_def validDate_def readSpan_def db_live_def
      db_swept_def attempt1_def sa_unique_def Let_def)

lemma scen_create2:
  "createSignupAttempt Map.empty (envAt 7201002 ''i2'') ''a@b'' ''F'' ''L'' ''pw'' db_swept
   = (Inr attempt2, db_two)"
  by (simp add: createSignupAttempt_def checkUserExists_def user_findUnique_email_def
      envAt_lower lower_ab envAt_def validDate_def readSpan_def db_swept_def db_two_def attempt1_def attempt2_def sa_create_def
      sa_unique_def cfg_get_def Let_def)

lemma reach_db_live: "reach db_live"
proof -
  have "reach db_empty" by (rule reach.start) (simp add: db_empty_def)
  then have "reach (step (Create Map.empty (envAt 1000 ''i1'') ''A@b'' ''F'' ''L'' ''pw'') db_empty)"
    by (rule reach.next_state)
  then show ?thesis by (simp add: scen_create1)
qed

lemma reach_db_two: "reach db_two"
proof -
  have "reach (step (SweepExpired (envAt 7201001 ''x'')) db_live)"
    using reach_db_live by (rule reach.next_state)
  then have "reach db_swept" by (simp add: scen_sweep1)
  then have "reach (step (Create Map.empty (envAt 7201002 ''i2'') ''a@b'' ''F'' ''L'' ''pw'') db_swept)"
    by (rule reach.next_state)
  then show ?thesis by (simp add: scen_create2)
qed

lemma scen_complete1:
  "completeSignupAttempt (envAt 5000 ''x'') ''i1'' db_live =
   (Inr (), \<lparr>users = [], refreshTokens = [],
             signupAttempts = [attempt1\<lparr>sa_updatedAt := 5000, sa_status := COMPLETED,
                                         sa_completedAt := Some 5000\<rparr>]\<rparr>)"
  by (simp add: completeSignupAttempt_def sa_update_def envAt_def validDate_def readSpan_def db_live_def attempt1_def
      sa_unique_def int4_def Let_def)

lemma scen_create3:
  "createSignupAttempt Map.empty (envAt 5001 ''i3'') ''a@b'' ''F'' ''L'' ''pw''
     \<lparr>users = [], refreshTokens = [],
      signupAttempts = [attempt1\<lparr>sa_updatedAt := 5000, sa_status := COMPLETED,
                                  sa_completedAt := Some 5000\<rparr>]\<rparr>
   = (Inr attempt3, db_done)"
  by (simp add: createSignupAttempt_def checkUserExists_def user_findUnique_email_def
      envAt_lower lower_ab envAt_def validDate_def readSpan_def db_done_def attempt1_def attempt3_def sa_create_def
      sa_unique_def cfg_get_def Let_def)

lemma reach_db_done: "reach db_done"
proof -
  have "reach (step (Complete (envAt 5000 ''x'') ''i1'') db_live)"
    using reach_db_live by (rule reach.next_state)
  then have "reach (step (Create Map.empty (envAt 5001 ''i3'') ''a@b'' ''F'' ''L'' ''pw'')
                      (step (Complete (envAt 5000 ''x'') ''i1'') db_live))"
    by (rule reach.next_state)
  then show ?thesis by (simp add: scen_complete1 scen_create3)
qed


section \<open>Transitions the index rejects\<close>

lemma same_key_not_distinct:
  "a \<in> set xs \<Longrightarrow> b \<in> set xs \<Longrightarrow> a \<noteq> b \<Longrightarrow> h a = h b \<Longrightarrow> \<not> distinct (map h xs)"
  by (auto simp: distinct_map inj_on_def)

lemma find_by_id:
  assumes "distinct (map sa_id xs)" and "b \<in> set xs"
  shows "find (\<lambda>a. sa_id a = sa_id b) xs = Some b"
proof (cases "find (\<lambda>a. sa_id a = sa_id b) xs")
  case None
  with assms(2) show ?thesis by (auto simp: find_None_iff)
next
  case (Some c)
  then have "c \<in> set xs" "sa_id c = sa_id b"
    by (auto simp: find_Some_iff)
  with assms have "c = b" by (auto simp: distinct_map inj_on_def)
  with Some show ?thesis by simp
qed

lemma expire_blocked:
  assumes a: "a \<in> set (signupAttempts d)" and b: "b \<in> set (signupAttempts d)"
      and em: "sa_email a = sa_email b"
      and sa: "sa_status a = EXPIRED" and sb: "sa_status b = IN_PROGRESS"
      and due: "sa_expiresAt b < ts"
  shows "sa_updateMany_expire True ts d = Inl UniqueViolation"
proof -
  let ?g = "\<lambda>a. if sa_status a = IN_PROGRESS \<and> sa_expiresAt a < ts
                 then a\<lparr>sa_updatedAt := ts, sa_status := EXPIRED\<rparr> else a"
  let ?h = "\<lambda>r. (sa_email (?g r), sa_status (?g r))"
  have ne: "a \<noteq> b" using sa sb by auto
  have "?h a = ?h b" using em sa sb due by simp
  with a b ne have "\<not> distinct (map ?h (signupAttempts d))"
    by (rule same_key_not_distinct)
  then have "\<not> sa_unique (map ?g (signupAttempts d))"
    by (simp add: sa_unique_def comp_def)
  then show ?thesis by (simp add: sa_updateMany_expire_def Let_def)
qed

lemma complete_blocked:
  assumes pk: "distinct (map sa_id (signupAttempts d))"
      and a: "a \<in> set (signupAttempts d)" and b: "b \<in> set (signupAttempts d)"
      and em: "sa_email a = sa_email b"
      and sa: "sa_status a = COMPLETED" and sb: "sa_status b = IN_PROGRESS"
  shows "\<exists>x. sa_update True ts (sa_id b)
               (\<lambda>r. r\<lparr>sa_status := COMPLETED, sa_completedAt := Some ts\<rparr>) d = Inl x"
proof -
  let ?b' = "b\<lparr>sa_updatedAt := ts, sa_status := COMPLETED, sa_completedAt := Some ts\<rparr>"
  let ?g = "\<lambda>r. if sa_id r = sa_id b then ?b' else r"
  let ?h = "\<lambda>r. (sa_email (?g r), sa_status (?g r))"
  have ne: "a \<noteq> b" using sa sb by auto
  with pk a b have ida: "sa_id a \<noteq> sa_id b" by (auto simp: distinct_map inj_on_def)
  have f: "find (\<lambda>r. sa_id r = sa_id b) (signupAttempts d) = Some b"
    using pk b by (rule find_by_id)
  have "?h a = ?h b" using em sa ida by simp
  with a b ne have "\<not> distinct (map ?h (signupAttempts d))"
    by (rule same_key_not_distinct)
  then have "\<not> sa_unique (map ?g (signupAttempts d))"
    by (simp add: sa_unique_def comp_def)
  with f show ?thesis by (simp add: sa_update_def Let_def)
qed

lemma updateMany_down_or_up:
  "sa_updateMany_expire True ts d = Inl x \<Longrightarrow> \<exists>y. sa_updateMany_expire ok ts d = Inl y"
  by (cases ok) (auto simp: sa_updateMany_expire_def Let_def split: if_splits)

lemma update_down_or_up:
  "sa_update True ts i f d = Inl x \<Longrightarrow> \<exists>y. sa_update ok ts i f d = Inl y"
  by (cases ok) (auto simp: sa_update_def)

text \<open>
  Claim C9. The unique index on (email, status) holds for every status: in a store that
  satisfies the schema, each email has at most one row in each status, so at most one
  \<open>EXPIRED\<close> and at most one \<open>COMPLETED\<close> row. Hence, when an email already has an
  \<open>EXPIRED\<close> row and also an \<open>IN_PROGRESS\<close> row past its expiry, the bulk update of the
  sweep is rejected by the index, and \<open>markExpiredAttempts\<close> returns 0 and changes
  nothing; and when an email already has a \<open>COMPLETED\<close> row, the update of
  \<open>completeSignupAttempt\<close> on its \<open>IN_PROGRESS\<close> row is rejected and the call fails.
\<close>

theorem email_status_index_blocks_second_transition:
  assumes uq: "sa_unique (signupAttempts d)"
      and pk: "distinct (map sa_id (signupAttempts d))"
  shows "(\<forall>em st. length (rowsOf em st d) \<le> 1) \<and>
         (\<forall>a b. a \<in> set (signupAttempts d) \<and> b \<in> set (signupAttempts d) \<and>
                sa_email a = sa_email b \<and> sa_status a = EXPIRED \<and>
                sa_status b = IN_PROGRESS \<and> sa_expiresAt b < clock e \<longrightarrow>
                sa_updateMany_expire True (clock e) d = Inl UniqueViolation \<and>
                markExpiredAttempts e d = (Inr 0, d)) \<and>
         (\<forall>a b. a \<in> set (signupAttempts d) \<and> b \<in> set (signupAttempts d) \<and>
                sa_email a = sa_email b \<and> sa_status a = COMPLETED \<and>
                sa_status b = IN_PROGRESS \<longrightarrow>
                (\<exists>x. sa_update True (clock e) (sa_id b)
                        (\<lambda>r. r\<lparr>sa_status := COMPLETED, sa_completedAt := Some (clock e)\<rparr>) d
                      = Inl x) \<and>
                completeSignupAttempt e (sa_id b) d =
                  (Inl (InternalServerErrorException ''Failed to complete signup attempt''), d))"
proof (intro conjI allI impI)
  fix em st show "length (rowsOf em st d) \<le> 1" using uq by (rule sa_unique_rowsOf)
next
  fix a b
  assume h: "a \<in> set (signupAttempts d) \<and> b \<in> set (signupAttempts d) \<and>
             sa_email a = sa_email b \<and> sa_status a = EXPIRED \<and>
             sa_status b = IN_PROGRESS \<and> sa_expiresAt b < clock e"
  then show blocked: "sa_updateMany_expire True (clock e) d = Inl UniqueViolation"
    by (intro expire_blocked [of a d b]) simp_all
  from updateMany_down_or_up [OF blocked, of "storeUp e 0"]
  show "markExpiredAttempts e d = (Inr 0, d)"
    by (auto simp: markExpiredAttempts_def)
next
  fix a b
  assume h: "a \<in> set (signupAttempts d) \<and> b \<in> set (signupAttempts d) \<and>
             sa_email a = sa_email b \<and> sa_status a = COMPLETED \<and>
             sa_status b = IN_PROGRESS"
  then show blocked: "\<exists>x. sa_update True (clock e) (sa_id b)
                        (\<lambda>r. r\<lparr>sa_status := COMPLETED, sa_completedAt := Some (clock e)\<rparr>) d
                      = Inl x"
    by (intro complete_blocked [OF pk, of a b]) simp_all
  then obtain x where "sa_update True (clock e) (sa_id b)
                        (\<lambda>r. r\<lparr>sa_status := COMPLETED, sa_completedAt := Some (clock e)\<rparr>) d
                      = Inl x" ..
  from update_down_or_up [OF this, of "storeUp e 0"]
  show "completeSignupAttempt e (sa_id b) d =
          (Inl (InternalServerErrorException ''Failed to complete signup attempt''), d)"
    by (auto simp: completeSignupAttempt_def)
qed


text \<open>
  Both situations are reached by the operations themselves: create, sweep and create
  again, after which a sweep of the overdue second attempt returns 0 and leaves it
  \<open>IN_PROGRESS\<close>; and create, complete and create again, after which completing the
  second attempt fails.
\<close>

theorem second_transition_witness:
  "reach db_two \<and>
   markExpiredAttempts (envAt 20000000 ''x'') db_two = (Inr 0, db_two) \<and>
   rowsOf ''a@b'' IN_PROGRESS db_two = [attempt2] \<and> sa_expiresAt attempt2 < 20000000 \<and>
   reach db_done \<and>
   completeSignupAttempt (envAt 6000 ''x'') ''i3'' db_done =
     (Inl (InternalServerErrorException ''Failed to complete signup attempt''), db_done)"
proof -
  have uq: "sa_unique (signupAttempts db_two)"
    by (simp add: sa_unique_def db_two_def attempt1_def attempt2_def)
  have pk: "distinct (map sa_id (signupAttempts db_two))"
    by (simp add: db_two_def attempt1_def attempt2_def)
  have pre: "attempt1\<lparr>sa_updatedAt := 7201001, sa_status := EXPIRED\<rparr> \<in> set (signupAttempts db_two) \<and>
             attempt2 \<in> set (signupAttempts db_two) \<and>
             sa_email (attempt1\<lparr>sa_updatedAt := 7201001, sa_status := EXPIRED\<rparr>) = sa_email attempt2 \<and>
             sa_status (attempt1\<lparr>sa_updatedAt := 7201001, sa_status := EXPIRED\<rparr>) = EXPIRED \<and>
             sa_status attempt2 = IN_PROGRESS \<and>
             sa_expiresAt attempt2 < clock (envAt 20000000 ''x'')"
    by (simp add: db_two_def attempt1_def attempt2_def envAt_def validDate_def readSpan_def)
  from email_status_index_blocks_second_transition [OF uq pk, of "envAt 20000000 ''x''"] pre
  have s: "markExpiredAttempts (envAt 20000000 ''x'') db_two = (Inr 0, db_two)"
    by blast
  have r: "rowsOf ''a@b'' IN_PROGRESS db_two = [attempt2]"
    by (simp add: rowsOf_def db_two_def attempt1_def attempt2_def)
  have x: "sa_expiresAt attempt2 < 20000000" by (simp add: attempt2_def attempt1_def)
  have uq': "sa_unique (signupAttempts db_done)"
    by (simp add: sa_unique_def db_done_def attempt1_def attempt3_def)
  have pk': "distinct (map sa_id (signupAttempts db_done))"
    by (simp add: db_done_def attempt1_def attempt3_def)
  have pre': "attempt1\<lparr>sa_updatedAt := 5000, sa_status := COMPLETED, sa_completedAt := Some 5000\<rparr>
                \<in> set (signupAttempts db_done) \<and>
              attempt3 \<in> set (signupAttempts db_done) \<and>
              sa_email (attempt1\<lparr>sa_updatedAt := 5000, sa_status := COMPLETED,
                                 sa_completedAt := Some 5000\<rparr>) = sa_email attempt3 \<and>
              sa_status (attempt1\<lparr>sa_updatedAt := 5000, sa_status := COMPLETED,
                                  sa_completedAt := Some 5000\<rparr>) = COMPLETED \<and>
              sa_status attempt3 = IN_PROGRESS"
    by (simp add: db_done_def attempt1_def attempt3_def)
  from email_status_index_blocks_second_transition [OF uq' pk', of "envAt 6000 ''x''"] pre'
  have "completeSignupAttempt (envAt 6000 ''x'') (sa_id attempt3) db_done =
     (Inl (InternalServerErrorException ''Failed to complete signup attempt''), db_done)"
    by blast
  then have c: "completeSignupAttempt (envAt 6000 ''x'') ''i3'' db_done =
     (Inl (InternalServerErrorException ''Failed to complete signup attempt''), db_done)"
    by (simp add: attempt3_def)
  from s r x c reach_db_two reach_db_done show ?thesis by simp
qed


section \<open>The sweep never raises\<close>

lemma map_no_hit: "\<forall>a\<in>set xs. \<not> P a \<Longrightarrow> map (\<lambda>a. if P a then g a else a) xs = xs"
  by (induction xs) auto

text \<open>
  Claim C10. \<open>markExpiredAttempts\<close> never raises: it always returns a count. Whenever
  the bulk update fails (the store does not answer, or the index rejects it) it
  returns 0 and leaves the store as it was, which is exactly what a successful sweep
  that finds no expired attempt returns.
\<close>

theorem markExpiredAttempts_never_raises:
  "(\<exists>n d'. markExpiredAttempts e d = (Inr n, d')) \<and>
   (\<forall>x. sa_updateMany_expire (storeUp e 0) (clock e) d = Inl x \<longrightarrow>
        markExpiredAttempts e d = (Inr 0, d)) \<and>
   (\<not> storeUp e 0 \<longrightarrow> markExpiredAttempts e d = (Inr 0, d)) \<and>
   (storeUp e 0 \<and> sa_unique (signupAttempts d) \<and>
    (\<forall>a\<in>set (signupAttempts d). \<not> (sa_status a = IN_PROGRESS \<and> sa_expiresAt a < clock e)) \<longrightarrow>
      markExpiredAttempts e d = (Inr 0, d))"
proof (intro conjI allI impI)
  show "\<exists>n d'. markExpiredAttempts e d = (Inr n, d')"
    by (auto simp: markExpiredAttempts_def split: sum.splits prod.splits)
next
  fix x assume "sa_updateMany_expire (storeUp e 0) (clock e) d = Inl x"
  then show "markExpiredAttempts e d = (Inr 0, d)" by (simp add: markExpiredAttempts_def)
next
  assume "\<not> storeUp e 0"
  then show "markExpiredAttempts e d = (Inr 0, d)"
    by (simp add: markExpiredAttempts_def sa_updateMany_expire_def Let_def)
next
  assume h: "storeUp e 0 \<and> sa_unique (signupAttempts d) \<and>
    (\<forall>a\<in>set (signupAttempts d). \<not> (sa_status a = IN_PROGRESS \<and> sa_expiresAt a < clock e))"
  then have m: "map (\<lambda>a. if sa_status a = IN_PROGRESS \<and> sa_expiresAt a < clock e
                        then a\<lparr>sa_updatedAt := clock e, sa_status := EXPIRED\<rparr> else a)
                  (signupAttempts d) = signupAttempts d"
    by (intro map_no_hit) simp
  from h have f: "filter (\<lambda>a. sa_status a = IN_PROGRESS \<and> sa_expiresAt a < clock e)
                    (signupAttempts d) = []"
    by (auto simp: filter_empty_conv)
  from h m f show "markExpiredAttempts e d = (Inr 0, d)"
    by (simp add: markExpiredAttempts_def sa_updateMany_expire_def Let_def)
qed

text \<open>
  With the store down, a sweep over a store holding an overdue attempt returns 0 and
  changes nothing, as does a sweep of the empty store; with the store up the same
  sweep transitions the attempt and returns 1.
\<close>

theorem markExpiredAttempts_failure_looks_empty_witness:
  "markExpiredAttempts (envDown 7201001 ''x'') db_live = (Inr 0, db_live) \<and>
   markExpiredAttempts (envAt 7201001 ''x'') db_empty = (Inr 0, db_empty) \<and>
   markExpiredAttempts (envAt 7201001 ''x'') db_live = (Inr 1, db_swept)"
proof -
  have dn: "\<not> storeUp (envDown 7201001 ''x'') 0" by (simp add: envDown_def envAt_def validDate_def readSpan_def)
  have up: "storeUp (envAt 7201001 ''x'') 0 \<and> sa_unique (signupAttempts db_empty) \<and>
    (\<forall>a\<in>set (signupAttempts db_empty).
        \<not> (sa_status a = IN_PROGRESS \<and> sa_expiresAt a < clock (envAt 7201001 ''x'')))"
    by (simp add: envAt_def validDate_def readSpan_def db_empty_def sa_unique_def)
  from markExpiredAttempts_never_raises [of "envDown 7201001 ''x''" db_live] dn
  have a: "markExpiredAttempts (envDown 7201001 ''x'') db_live = (Inr 0, db_live)" by blast
  from markExpiredAttempts_never_raises [of "envAt 7201001 ''x''" db_empty] up
  have b: "markExpiredAttempts (envAt 7201001 ''x'') db_empty = (Inr 0, db_empty)" by blast
  from a b scen_sweep1 show ?thesis by simp
qed

section \<open>Resuming an attempt\<close>

lemma map_replace_key:
  assumes "\<And>r. r \<in> set xs \<Longrightarrow> sa_id r = i \<Longrightarrow> k r = k a'"
  shows "map k (map (\<lambda>r. if sa_id r = i then a' else r) xs) = map k xs"
  using assms by (induction xs) auto

lemma sa_update_keeps_key:
  assumes pk: "distinct (map sa_id (signupAttempts d))"
      and uq: "sa_unique (signupAttempts d)"
      and mem: "a \<in> set (signupAttempts d)"
      and em: "sa_email (f (a\<lparr>sa_updatedAt := ts\<rparr>)) = sa_email a"
      and st: "sa_status (f (a\<lparr>sa_updatedAt := ts\<rparr>)) = sa_status a"
      and rng: "int4 (sa_attemptCount (f (a\<lparr>sa_updatedAt := ts\<rparr>)))"
  shows "sa_update True ts (sa_id a) f d =
         Inr (f (a\<lparr>sa_updatedAt := ts\<rparr>),
              d\<lparr>signupAttempts :=
                   map (\<lambda>r. if sa_id r = sa_id a then f (a\<lparr>sa_updatedAt := ts\<rparr>) else r)
                     (signupAttempts d)\<rparr>)"
proof -
  let ?a' = "f (a\<lparr>sa_updatedAt := ts\<rparr>)"
  let ?k = "\<lambda>r. (sa_email r, sa_status r)"
  have fnd: "find (\<lambda>r. sa_id r = sa_id a) (signupAttempts d) = Some a"
    using pk mem by (rule find_by_id)
  have same: "r = a" if "r \<in> set (signupAttempts d)" "sa_id r = sa_id a" for r
    using that pk mem by (auto simp: distinct_map inj_on_def)
  have keys: "map ?k (map (\<lambda>r. if sa_id r = sa_id a then ?a' else r) (signupAttempts d))
        = map ?k (signupAttempts d)"
    by (rule map_replace_key) (use same em st in auto)
  have "sa_unique (map (\<lambda>r. if sa_id r = sa_id a then ?a' else r) (signupAttempts d))"
    unfolding sa_unique_def keys using uq [unfolded sa_unique_def] .
  with fnd rng show ?thesis by (simp add: sa_update_def Let_def)
qed

lemma resume_result:
  assumes up: "storeUp e 0"
      and pk: "distinct (map sa_id (signupAttempts d))"
      and uq: "sa_unique (signupAttempts d)"
      and mem: "a \<in> set (signupAttempts d)"
      and rng: "int4 (sa_attemptCount a + 1)"
  shows "resumeSignupAttempt e a d =
         (Inr (a\<lparr>sa_attemptCount := sa_attemptCount a + 1, sa_updatedAt := clock e\<rparr>),
          d\<lparr>signupAttempts :=
               map (\<lambda>r. if sa_id r = sa_id a
                        then a\<lparr>sa_attemptCount := sa_attemptCount a + 1,
                               sa_updatedAt := clock e\<rparr>
                        else r) (signupAttempts d)\<rparr>)"
proof -
  let ?f = "\<lambda>r. r\<lparr>sa_attemptCount := sa_attemptCount a + 1, sa_updatedAt := clock e\<rparr>"
  have "sa_update True (clock e) (sa_id a) ?f d =
         Inr (?f (a\<lparr>sa_updatedAt := clock e\<rparr>),
              d\<lparr>signupAttempts :=
                   map (\<lambda>r. if sa_id r = sa_id a then ?f (a\<lparr>sa_updatedAt := clock e\<rparr>) else r)
                     (signupAttempts d)\<rparr>)"
    using pk uq mem rng by (intro sa_update_keeps_key) simp_all
  then show ?thesis using up by (simp add: resumeSignupAttempt_def)
qed

text \<open>
  Claim C8. For every attempt \<open>a\<close> that is a row of a store satisfying the schema, with
  the store answering and the counter below the column's maximum,
  \<open>resumeSignupAttempt\<close> succeeds; the row it writes and returns is \<open>a\<close> with
  \<open>attemptCount\<close> one higher and \<open>updatedAt\<close> set to the clock, every other field as
  before (step, completed steps, status, email, profile fields and the expiry
  deadline among them), and no other row changes.
\<close>

theorem resume_increments_count_only:
  assumes up: "storeUp e 0"
      and pk: "distinct (map sa_id (signupAttempts d))"
      and uq: "sa_unique (signupAttempts d)"
      and mem: "a \<in> set (signupAttempts d)"
      and rng: "int4 (sa_attemptCount a + 1)"
  shows "\<exists>a' d'. resumeSignupAttempt e a d = (Inr a', d') \<and>
           a' = a\<lparr>sa_attemptCount := sa_attemptCount a + 1, sa_updatedAt := clock e\<rparr> \<and>
           sa_attemptCount a' = sa_attemptCount a + 1 \<and> sa_updatedAt a' = clock e \<and>
           sa_id a' = sa_id a \<and> sa_email a' = sa_email a \<and>
           sa_firstName a' = sa_firstName a \<and> sa_lastName a' = sa_lastName a \<and>
           sa_passwordHash a' = sa_passwordHash a \<and>
           sa_emailVerified a' = sa_emailVerified a \<and>
           sa_phoneVerified a' = sa_phoneVerified a \<and> sa_mfaEnabled a' = sa_mfaEnabled a \<and>
           sa_currentStep a' = sa_currentStep a \<and>
           sa_completedSteps a' = sa_completedSteps a \<and> sa_status a' = sa_status a \<and>
           sa_createdAt a' = sa_createdAt a \<and> sa_expiresAt a' = sa_expiresAt a \<and>
           sa_completedAt a' = sa_completedAt a \<and>
           signupAttempts d' =
             map (\<lambda>r. if sa_id r = sa_id a then a' else r) (signupAttempts d) \<and>
           users d' = users d \<and> refreshTokens d' = refreshTokens d"
  using resume_result [OF up pk uq mem rng] by simp

text \<open>
  Resuming \<open>attempt1\<close> at time 2000: the counter goes from 1 to 2, \<open>updatedAt\<close> becomes
  2000, and the expiry stays at 7201000.
\<close>

theorem resume_witness:
  "resumeSignupAttempt (envAt 2000 ''x'') attempt1 db_live =
     (Inr (attempt1\<lparr>sa_attemptCount := 2, sa_updatedAt := 2000\<rparr>),
      db_live\<lparr>signupAttempts := [attempt1\<lparr>sa_attemptCount := 2, sa_updatedAt := 2000\<rparr>]\<rparr>) \<and>
   sa_expiresAt attempt1 = 7201000"
proof -
  have up: "storeUp (envAt 2000 ''x'') 0" by (simp add: envAt_def validDate_def readSpan_def)
  have pk: "distinct (map sa_id (signupAttempts db_live))" by (simp add: db_live_def)
  have uq: "sa_unique (signupAttempts db_live)" by (simp add: db_live_def sa_unique_def)
  have mem: "attempt1 \<in> set (signupAttempts db_live)" by (simp add: db_live_def)
  have rng: "int4 (sa_attemptCount attempt1 + 1)" by (simp add: attempt1_def int4_def)
  from resume_increments_count_only [OF up pk uq mem rng]
  obtain a' d' where r: "resumeSignupAttempt (envAt 2000 ''x'') attempt1 db_live = (Inr a', d')"
    and a': "a' = attempt1\<lparr>sa_attemptCount := sa_attemptCount attempt1 + 1,
                           sa_updatedAt := clock (envAt 2000 ''x'')\<rparr>"
    and d': "signupAttempts d' =
             map (\<lambda>r. if sa_id r = sa_id attempt1 then a' else r) (signupAttempts db_live)"
    and u: "users d' = users db_live" and t: "refreshTokens d' = refreshTokens db_live"
    by blast
  have 1: "a' = attempt1\<lparr>sa_attemptCount := 2, sa_updatedAt := 2000\<rparr>"
    using a' by (simp add: attempt1_def envAt_def validDate_def readSpan_def)
  have 2: "d' = db_live\<lparr>signupAttempts := [attempt1\<lparr>sa_attemptCount := 2, sa_updatedAt := 2000\<rparr>]\<rparr>"
    using d' u t 1 by (cases d') (simp add: db_live_def)
  from r 1 2 show ?thesis by (simp add: attempt1_def)
qed

section \<open>At most one attempt in progress\<close>

lemma rowsOf_empty_key:
  "rowsOf em st d = [] \<Longrightarrow> (em, st) \<notin> set (map (\<lambda>a. (sa_email a, sa_status a)) (signupAttempts d))"
  by (auto simp: rowsOf_def filter_empty_conv)

lemma create_fresh:
  assumes uq: "sa_unique (signupAttempts d)"
      and nouser: "find (\<lambda>u. u_email u = toLowerCase e em) (users d) = None"
      and free: "rowsOf (toLowerCase e em) IN_PROGRESS d = []"
      and up0: "storeUp e 0" and up1: "storeUp e 1"
      and hash: "bcrypt_hash e p (parseInt10 (cfg_get cfg ''BCRYPT_SALT_ROUNDS'' ''10'')) = Some h"
      and hrs: "plusHours e (clock e) 2 = Some x"
      and fresh: "randomUUID e \<notin> set (map sa_id (signupAttempts d))"
  shows "\<exists>a. createSignupAttempt cfg e em f l p d =
               (Inr a, d\<lparr>signupAttempts := signupAttempts d @ [a]\<rparr>) \<and>
             sa_email a = toLowerCase e em \<and> sa_status a = IN_PROGRESS \<and>
             sa_id a = randomUUID e \<and> sa_attemptCount a = 1 \<and>
             sa_currentStep a = ''email_verification'' \<and>
             sa_expiresAt a = x"
proof -
  from rowsOf_empty_key [OF free] uq
  have "sa_unique (signupAttempts d @
          [\<lparr>sa_id = randomUUID e, sa_email = toLowerCase e em, sa_firstName = Some f,
            sa_lastName = Some l, sa_passwordHash = Some h, sa_emailVerified = False,
            sa_phoneVerified = False, sa_mfaEnabled = False,
            sa_currentStep = ''email_verification'', sa_completedSteps = [],
            sa_status = IN_PROGRESS, sa_attemptCount = 1, sa_createdAt = clock e,
            sa_updatedAt = clock e, sa_expiresAt = x,
            sa_completedAt = None\<rparr>])"
    by (simp add: sa_unique_def)
  then show ?thesis using nouser up0 up1 hash hrs fresh
    by (simp add: createSignupAttempt_def checkUserExists_def user_findUnique_email_def
        sa_create_def Let_def)
qed

lemma sa_create_taken:
  assumes "rowsOf em IN_PROGRESS d \<noteq> []"
  shows "\<exists>x. sa_create ok ts aid em fname lname ph stp IN_PROGRESS ex d = Inl x"
proof -
  from assms have "(em, IN_PROGRESS) \<in> set (map (\<lambda>a. (sa_email a, sa_status a)) (signupAttempts d))"
    by (auto simp: rowsOf_def filter_empty_conv)
  then show ?thesis
    by (simp add: sa_create_def Let_def sa_unique_def)
qed

lemma create_taken:
  assumes nouser: "find (\<lambda>u. u_email u = toLowerCase e em) (users d) = None"
      and taken: "rowsOf (toLowerCase e em) IN_PROGRESS d \<noteq> []"
  shows "createSignupAttempt cfg e em f l p d =
         (Inl (InternalServerErrorException ''Failed to create signup attempt''), d)"
proof (cases "storeUp e 0")
  case False
  then show ?thesis
    by (simp add: createSignupAttempt_def checkUserExists_def user_findUnique_email_def)
next
  case True
  show ?thesis
  proof (cases "bcrypt_hash e p (parseInt10 (cfg_get cfg ''BCRYPT_SALT_ROUNDS'' ''10''))")
    case None
    with True nouser show ?thesis
      by (simp add: createSignupAttempt_def checkUserExists_def user_findUnique_email_def)
  next
    case (Some h)
    note hash = Some
    show ?thesis
    proof (cases "plusHours e (clock e) 2")
      case None
      with True nouser hash show ?thesis
        by (simp add: createSignupAttempt_def checkUserExists_def user_findUnique_email_def)
    next
      case (Some ex)
      from sa_create_taken [OF taken]
      obtain x where "sa_create (storeUp e 1) (clock e) (randomUUID e) (toLowerCase e em) f l h
                        ''email_verification'' IN_PROGRESS ex d = Inl x"
        by blast
      with True nouser hash Some show ?thesis
        by (simp add: createSignupAttempt_def checkUserExists_def user_findUnique_email_def)
    qed
  qed
qed

lemma create_user_exists:
  assumes "storeUp e 0" and "find (\<lambda>u. u_email u = toLowerCase e em) (users d) = Some u"
  shows "createSignupAttempt cfg e em f l p d =
         (Inl (ConflictException ''An account with this email already exists''), d)"
  using assms
  by (simp add: createSignupAttempt_def checkUserExists_def user_findUnique_email_def)

lemma checkUserExists_users:
  "users d' = users d \<Longrightarrow> checkUserExists e em d' = checkUserExists e em d"
  by (simp add: checkUserExists_def user_findUnique_email_def)

lemma rowsOf_append_fresh:
  "rowsOf em st d = [] \<Longrightarrow> sa_email a = em \<Longrightarrow> sa_status a = st \<Longrightarrow>
   rowsOf em st (d\<lparr>signupAttempts := signupAttempts d @ [a]\<rparr>) = [a]"
  by (simp add: rowsOf_def)

text \<open>
  Claim C2. In every state the signup-attempt operations (create, resume, advance,
  complete, sweep) reach, an email has at most one \<open>IN_PROGRESS\<close> row. Of two \<open>create\<close>
  calls for one email (equal after lower-casing) in a reached state that holds no
  user and no \<open>IN_PROGRESS\<close> row for it, exactly one succeeds: the first, with the
  store answering, the hash computed, a valid expiry date and an unused id, inserts
  the attempt and leaves exactly one \<open>IN_PROGRESS\<close> row; the other, which then runs
  against the state already holding that attempt, is rejected and changes nothing,
  whatever its environment, and its user check reads the same whether it runs before
  or after the first call's insert.
\<close>

theorem at_most_one_in_progress:
  assumes r: "reach d"
  shows "length (rowsOf em IN_PROGRESS d) \<le> 1 \<and>
         (\<forall>cfg e em1 f l p cfg' e' em2 f' l' p'.
            toLowerCase e em1 = em \<and> toLowerCase e' em2 = em \<and>
            find (\<lambda>u. u_email u = em) (users d) = None \<and>
            rowsOf em IN_PROGRESS d = [] \<and>
            storeUp e 0 \<and> storeUp e 1 \<and>
            bcrypt_hash e p (parseInt10 (cfg_get cfg ''BCRYPT_SALT_ROUNDS'' ''10'')) \<noteq> None \<and>
            plusHours e (clock e) 2 \<noteq> None \<and>
            randomUUID e \<notin> set (map sa_id (signupAttempts d)) \<longrightarrow>
            (\<exists>a d1. createSignupAttempt cfg e em1 f l p d = (Inr a, d1) \<and>
                    rowsOf em IN_PROGRESS d1 = [a] \<and>
                    checkUserExists e' em2 d1 = checkUserExists e' em2 d \<and>
                    createSignupAttempt cfg' e' em2 f' l' p' d1 =
                      (Inl (InternalServerErrorException ''Failed to create signup attempt''),
                       d1)))"
proof (intro conjI allI impI)
  from r have uq: "sa_unique (signupAttempts d)" by (rule reach_unique)
  then show "length (rowsOf em IN_PROGRESS d) \<le> 1" by (rule sa_unique_rowsOf)
  fix cfg cfg' :: config and e e' :: env and em1 f l p em2 f' l' p' :: string
  assume h: "toLowerCase e em1 = em \<and> toLowerCase e' em2 = em \<and>
            find (\<lambda>u. u_email u = em) (users d) = None \<and>
            rowsOf em IN_PROGRESS d = [] \<and>
            storeUp e 0 \<and> storeUp e 1 \<and>
            bcrypt_hash e p (parseInt10 (cfg_get cfg ''BCRYPT_SALT_ROUNDS'' ''10'')) \<noteq> None \<and>
            plusHours e (clock e) 2 \<noteq> None \<and>
            randomUUID e \<notin> set (map sa_id (signupAttempts d))"
  then obtain hv x where
    hash: "bcrypt_hash e p (parseInt10 (cfg_get cfg ''BCRYPT_SALT_ROUNDS'' ''10'')) = Some hv"
    and hrs: "plusHours e (clock e) 2 = Some x"
    by auto
  from h have nouser: "find (\<lambda>u. u_email u = toLowerCase e em1) (users d) = None"
    and free: "rowsOf (toLowerCase e em1) IN_PROGRESS d = []"
    and up0: "storeUp e 0" and up1: "storeUp e 1"
    and fresh: "randomUUID e \<notin> set (map sa_id (signupAttempts d))"
    by simp_all
  from create_fresh [OF uq nouser free up0 up1 hash hrs fresh, of f l]
  obtain a where c1: "createSignupAttempt cfg e em1 f l p d =
                        (Inr a, d\<lparr>signupAttempts := signupAttempts d @ [a]\<rparr>)"
    and ea: "sa_email a = toLowerCase e em1" and sa: "sa_status a = IN_PROGRESS"
    by blast
  let ?d1 = "d\<lparr>signupAttempts := signupAttempts d @ [a]\<rparr>"
  have rows: "rowsOf em IN_PROGRESS ?d1 = [a]"
    using h ea sa by (intro rowsOf_append_fresh) simp_all
  have chk: "checkUserExists e' em2 ?d1 = checkUserExists e' em2 d"
    by (rule checkUserExists_users) simp
  have nouser2: "find (\<lambda>u. u_email u = toLowerCase e' em2) (users ?d1) = None"
    using h by simp
  have taken: "rowsOf (toLowerCase e' em2) IN_PROGRESS ?d1 \<noteq> []"
    using rows h by simp
  have c2: "createSignupAttempt cfg' e' em2 f' l' p' ?d1 =
            (Inl (InternalServerErrorException ''Failed to create signup attempt''), ?d1)"
    using nouser2 taken by (rule create_taken)
  from c1 rows chk c2
  show "\<exists>a d1. createSignupAttempt cfg e em1 f l p d = (Inr a, d1) \<and>
                    rowsOf em IN_PROGRESS d1 = [a] \<and>
                    checkUserExists e' em2 d1 = checkUserExists e' em2 d \<and>
                    createSignupAttempt cfg' e' em2 f' l' p' d1 =
                      (Inl (InternalServerErrorException ''Failed to create signup attempt''),
                       d1)"
    by blast
qed

text \<open>
  Two creates for \<open>a@b\<close> from the empty store: the first inserts \<open>attempt1\<close>, the
  second is rejected.
\<close>

theorem two_creates_witness:
  "reach db_empty \<and>
   createSignupAttempt Map.empty (envAt 1000 ''i1'') ''A@b'' ''F'' ''L'' ''pw'' db_empty
     = (Inr attempt1, db_live) \<and>
   rowsOf ''a@b'' IN_PROGRESS db_live = [attempt1] \<and>
   createSignupAttempt Map.empty (envAt 1001 ''i2'') ''a@b'' ''G'' ''M'' ''pw2'' db_live
     = (Inl (InternalServerErrorException ''Failed to create signup attempt''), db_live)"
proof -
  have r: "reach db_empty" by (rule reach.start) (simp add: db_empty_def)
  have pre: "toLowerCase (envAt 1000 ''i1'') ''A@b'' = ''a@b'' \<and>
            toLowerCase (envAt 1001 ''i2'') ''a@b'' = ''a@b'' \<and>
            find (\<lambda>u. u_email u = ''a@b'') (users db_empty) = None \<and>
            rowsOf ''a@b'' IN_PROGRESS db_empty = [] \<and>
            storeUp (envAt 1000 ''i1'') 0 \<and> storeUp (envAt 1000 ''i1'') 1 \<and>
            bcrypt_hash (envAt 1000 ''i1'') ''pw''
              (parseInt10 (cfg_get Map.empty ''BCRYPT_SALT_ROUNDS'' ''10'')) \<noteq> None \<and>
            plusHours (envAt 1000 ''i1'') (clock (envAt 1000 ''i1'')) 2 \<noteq> None \<and>
            randomUUID (envAt 1000 ''i1'') \<notin> set (map sa_id (signupAttempts db_empty))"
    by (simp add: envAt_lower lower_ab db_empty_def rowsOf_def envAt_def validDate_def readSpan_def)
  from at_most_one_in_progress [OF r, of "''a@b''"] pre
  obtain a d1 where
    c1: "createSignupAttempt Map.empty (envAt 1000 ''i1'') ''A@b'' ''F'' ''L'' ''pw'' db_empty
           = (Inr a, d1)"
    and rows: "rowsOf ''a@b'' IN_PROGRESS d1 = [a]"
    and c2: "createSignupAttempt Map.empty (envAt 1001 ''i2'') ''a@b'' ''G'' ''M'' ''pw2'' d1
           = (Inl (InternalServerErrorException ''Failed to create signup attempt''), d1)"
    by blast
  from c1 scen_create1 have "a = attempt1" "d1 = db_live" by simp_all
  with c1 rows c2 r show ?thesis by simp
qed

section \<open>Creating against an existing user or attempt\<close>

lemma after_simps:
  "storeUp (after k e) i = storeUp e (i + k)" "clock (after k e) = clock e"
  "randomUUID (after k e) = randomUUID e" "bcrypt_hash (after k e) = bcrypt_hash e"
  "timespan (after k e) = timespan e" "toLowerCase (after k e) = toLowerCase e"
  "plusDays (after k e) = plusDays e" "plusHours (after k e) = plusHours e"
  by (simp_all add: after_def)

lemma rowsOf_single:
  assumes uq: "sa_unique (signupAttempts d)" and mem: "a \<in> set (signupAttempts d)"
  shows "rowsOf (sa_email a) (sa_status a) d = [a]"
proof -
  have le: "length (rowsOf (sa_email a) (sa_status a) d) \<le> 1"
    using uq by (rule sa_unique_rowsOf)
  have "a \<in> set (rowsOf (sa_email a) (sa_status a) d)" using mem by (simp add: rowsOf_def)
  with le show ?thesis
    by (cases "rowsOf (sa_email a) (sa_status a) d") auto
qed

lemma findFirst_live:
  assumes uq: "sa_unique (signupAttempts d)" and mem: "a \<in> set (signupAttempts d)"
      and st: "sa_status a = IN_PROGRESS" and live: "ts < sa_expiresAt a"
  shows "sa_findFirst_inProgress True ts (sa_email a) d = Inr (Some a)"
proof -
  have "filter (\<lambda>x. sa_email x = sa_email a \<and> sa_status x = IN_PROGRESS \<and> ts < sa_expiresAt x)
          (signupAttempts d)
        = filter (\<lambda>x. ts < sa_expiresAt x) (rowsOf (sa_email a) IN_PROGRESS d)"
    by (simp add: rowsOf_def conj_ac)
  also have "\<dots> = [a]" using rowsOf_single [OF uq mem] st live by simp
  finally show ?thesis by (simp add: sa_findFirst_inProgress_def)
qed

lemma map_replace_ids:
  "map sa_id (map (\<lambda>r. if sa_id r = i then a' else r) xs) = map sa_id xs" if "sa_id a' = i"
  using that by (induction xs) auto

lemma signup_resumes_live:
  assumes up: "storeUp e 0" "storeUp e 1" "storeUp e 2"
      and nouser: "find (\<lambda>u. u_email u = toLowerCase e (dto_email dto)) (users d) = None"
      and pk: "distinct (map sa_id (signupAttempts d))"
      and uq: "sa_unique (signupAttempts d)"
      and mem: "a \<in> set (signupAttempts d)"
      and em: "sa_email a = toLowerCase e (dto_email dto)"
      and st: "sa_status a = IN_PROGRESS" and live: "clock e < sa_expiresAt a"
      and rng: "int4 (sa_attemptCount a + 1)"
      and secret: "cfg ''JWT_SIGNUP_SECRET'' = Some k" and key: "k \<noteq> []"
      and span: "timespan e (cfg_or cfg ''JWT_SIGNUP_EXPIRY'' ''2h'') = Some n"
  shows "\<exists>tok d'. signup cfg e dto d =
           (SignupSuccessResponseDto tok (sa_currentStep a) (sa_id a) (Some True)
              (Some (sa_completedSteps a)), d') \<and>
           map sa_id (signupAttempts d') = map sa_id (signupAttempts d) \<and>
           rowsOf (sa_email a) IN_PROGRESS d' =
             [a\<lparr>sa_attemptCount := sa_attemptCount a + 1, sa_updatedAt := clock e\<rparr>]"
proof -
  let ?a' = "a\<lparr>sa_attemptCount := sa_attemptCount a + 1, sa_updatedAt := clock e\<rparr>"
  have chk: "checkUserExists e (dto_email dto) d = Inr False"
    using up nouser by (simp add: checkUserExists_def user_findUnique_email_def)
  have fnd: "findInProgressAttempt (after 1 e) (dto_email dto) d = Some a"
    using findFirst_live [OF uq mem st live] up em
    by (simp add: findInProgressAttempt_def after_simps)
  have up2: "storeUp (after 2 e) 0" using up(3) by (simp add: after_def numeral_2_eq_2)
  define d' where
    "d' = d\<lparr>signupAttempts := map (\<lambda>r. if sa_id r = sa_id a then ?a' else r) (signupAttempts d)\<rparr>"
  have res: "resumeSignupAttempt (after 2 e) a d = (Inr ?a', d')"
    using resume_result [OF up2 pk uq mem rng] by (simp add: d'_def after_simps)
  have rows: "signupAttempts d' = map (\<lambda>r. if sa_id r = sa_id a then ?a' else r) (signupAttempts d)"
    by (simp add: d'_def)
  have tok: "generateSignupToken cfg e (sa_id ?a') (sa_email ?a') (sa_currentStep ?a') =
             Inr (Signed \<lparr>p_sub = None, p_email = Some (sa_email a), p_tokenId = None,
                           p_attemptId = Some (sa_id a),
                           p_currentStep = Some (sa_currentStep a),
                           p_type = Some ''signup''\<rparr> k (clock e div 1000)
                    (clock e div 1000 + n))"
    using secret key span by (simp add: generateSignupToken_def getOrThrow_def jwt_sign_def)
  have ids: "map sa_id (signupAttempts d') = map sa_id (signupAttempts d)"
    unfolding rows by (rule map_replace_ids) simp
  have same: "r = a" if "r \<in> set (signupAttempts d)" "sa_id r = sa_id a" for r
    using that pk mem by (auto simp: distinct_map inj_on_def)
  have "rowsOf (sa_email a) IN_PROGRESS d' =
        map (\<lambda>r. if sa_id r = sa_id a then ?a' else r) (rowsOf (sa_email a) IN_PROGRESS d)"
    unfolding rowsOf_def rows filter_map comp_def
    by (rule arg_cong [where f = "map _"], rule filter_cong) (use same st in auto)
  also have "\<dots> = [?a']" using rowsOf_single [OF uq mem] st by simp
  finally have r1: "rowsOf (sa_email a) IN_PROGRESS d' = [?a']" .
  from chk fnd res tok ids r1 show ?thesis
    by (simp add: signup_def signup_try_def)
qed

text \<open>
  Claim C3, as amended. \<open>createSignupAttempt\<close> fails with the conflict exception when
  a user with the (lower-cased) email exists and the store answers the lookup. When no
  such user exists and an \<open>IN_PROGRESS\<close> attempt for the email already exists, it makes
  no check of its own: the insert is rejected by the index on (email, status), and the
  call fails with the internal-server-error \<open>Failed to create signup attempt\<close>, which
  is not a conflict, leaving the store unchanged. The check for a live attempt is made
  by \<open>signup\<close>: with no user, an unexpired \<open>IN_PROGRESS\<close> attempt, the store answering,
  the counter within range, a non-empty signup key configured and the expiry setting
  readable, it resumes that attempt and creates no row.
\<close>

theorem create_conflict_only_for_existing_user:
  "(storeUp e 0 \<and> find (\<lambda>u. u_email u = toLowerCase e em) (users d) \<noteq> None \<longrightarrow>
      createSignupAttempt cfg e em f l p d =
        (Inl (ConflictException ''An account with this email already exists''), d)) \<and>
   (find (\<lambda>u. u_email u = toLowerCase e em) (users d) = None \<and>
    rowsOf (toLowerCase e em) IN_PROGRESS d \<noteq> [] \<longrightarrow>
      createSignupAttempt cfg e em f l p d =
        (Inl (InternalServerErrorException ''Failed to create signup attempt''), d) \<and>
      \<not> isConflict (fst (createSignupAttempt cfg e em f l p d))) \<and>
   (\<forall>a. storeUp e 0 \<and> storeUp e 1 \<and> storeUp e 2 \<and>
        find (\<lambda>u. u_email u = toLowerCase e (dto_email dto)) (users d) = None \<and>
        distinct (map sa_id (signupAttempts d)) \<and> sa_unique (signupAttempts d) \<and>
        a \<in> set (signupAttempts d) \<and> sa_email a = toLowerCase e (dto_email dto) \<and>
        sa_status a = IN_PROGRESS \<and> clock e < sa_expiresAt a \<and>
        int4 (sa_attemptCount a + 1) \<and> cfg ''JWT_SIGNUP_SECRET'' \<noteq> None \<and>
        cfg ''JWT_SIGNUP_SECRET'' \<noteq> Some [] \<and>
        timespan e (cfg_or cfg ''JWT_SIGNUP_EXPIRY'' ''2h'') \<noteq> None \<longrightarrow>
        (\<exists>tok d'. signup cfg e dto d =
           (SignupSuccessResponseDto tok (sa_currentStep a) (sa_id a) (Some True)
              (Some (sa_completedSteps a)), d') \<and>
           map sa_id (signupAttempts d') = map sa_id (signupAttempts d) \<and>
           rowsOf (sa_email a) IN_PROGRESS d' =
             [a\<lparr>sa_attemptCount := sa_attemptCount a + 1, sa_updatedAt := clock e\<rparr>]))"
proof (intro conjI allI impI)
  assume "storeUp e 0 \<and> find (\<lambda>u. u_email u = toLowerCase e em) (users d) \<noteq> None"
  then show "createSignupAttempt cfg e em f l p d =
        (Inl (ConflictException ''An account with this email already exists''), d)"
    by (auto intro: create_user_exists)
next
  assume h: "find (\<lambda>u. u_email u = toLowerCase e em) (users d) = None \<and>
    rowsOf (toLowerCase e em) IN_PROGRESS d \<noteq> []"
  then show c: "createSignupAttempt cfg e em f l p d =
        (Inl (InternalServerErrorException ''Failed to create signup attempt''), d)"
    by (intro create_taken) simp_all
  show "\<not> isConflict (fst (createSignupAttempt cfg e em f l p d))"
    by (simp add: c)
next
  fix a
  assume h: "storeUp e 0 \<and> storeUp e 1 \<and> storeUp e 2 \<and>
        find (\<lambda>u. u_email u = toLowerCase e (dto_email dto)) (users d) = None \<and>
        distinct (map sa_id (signupAttempts d)) \<and> sa_unique (signupAttempts d) \<and>
        a \<in> set (signupAttempts d) \<and> sa_email a = toLowerCase e (dto_email dto) \<and>
        sa_status a = IN_PROGRESS \<and> clock e < sa_expiresAt a \<and>
        int4 (sa_attemptCount a + 1) \<and> cfg ''JWT_SIGNUP_SECRET'' \<noteq> None \<and>
        cfg ''JWT_SIGNUP_SECRET'' \<noteq> Some [] \<and>
        timespan e (cfg_or cfg ''JWT_SIGNUP_EXPIRY'' ''2h'') \<noteq> None"
  then obtain k n where "cfg ''JWT_SIGNUP_SECRET'' = Some k" "k \<noteq> []"
    "timespan e (cfg_or cfg ''JWT_SIGNUP_EXPIRY'' ''2h'') = Some n" by auto
  with h show "\<exists>tok d'. signup cfg e dto d =
           (SignupSuccessResponseDto tok (sa_currentStep a) (sa_id a) (Some True)
              (Some (sa_completedSteps a)), d') \<and>
           map sa_id (signupAttempts d') = map sa_id (signupAttempts d) \<and>
           rowsOf (sa_email a) IN_PROGRESS d' =
             [a\<lparr>sa_attemptCount := sa_attemptCount a + 1, sa_updatedAt := clock e\<rparr>]"
    by (intro signup_resumes_live) simp_all
qed


text \<open>
  An existing user gives the conflict; an existing attempt and no user gives the
  internal-server-error; and \<open>signup\<close> on the same store resumes the attempt.
\<close>

theorem create_conflict_witness:
  "createSignupAttempt cfg1 (envAt 2000 ''i2'') ''A@b'' ''F'' ''L'' ''pw'' db1 =
     (Inl (ConflictException ''An account with this email already exists''), db1) \<and>
   createSignupAttempt cfg1 (envAt 2000 ''i2'') ''A@b'' ''F'' ''L'' ''pw'' db_live =
     (Inl (InternalServerErrorException ''Failed to create signup attempt''), db_live) \<and>
   (\<exists>tok d'. signup cfg1 (envAt 2000 ''i2'') dto1 db_live =
      (SignupSuccessResponseDto tok ''email_verification'' ''i1'' (Some True) (Some []), d') \<and>
      map sa_id (signupAttempts d') = [''i1''] \<and>
      rowsOf ''a@b'' IN_PROGRESS d' = [attempt1\<lparr>sa_attemptCount := 2, sa_updatedAt := 2000\<rparr>])"
proof -
  have p1: "storeUp (envAt 2000 ''i2'') 0 \<and>
            find (\<lambda>u. u_email u = toLowerCase (envAt 2000 ''i2'') ''A@b'') (users db1) \<noteq> None"
    by (simp add: envAt_def validDate_def readSpan_def envAt_lower lower_ab db1_def user1_def)
  have p2: "find (\<lambda>u. u_email u = toLowerCase (envAt 2000 ''i2'') ''A@b'') (users db_live) = None \<and>
            rowsOf (toLowerCase (envAt 2000 ''i2'') ''A@b'') IN_PROGRESS db_live \<noteq> []"
    by (simp add: envAt_lower lower_ab db_live_def rowsOf_def attempt1_def)
  have p3: "storeUp (envAt 2000 ''i2'') 0 \<and> storeUp (envAt 2000 ''i2'') 1 \<and>
        storeUp (envAt 2000 ''i2'') 2 \<and>
        find (\<lambda>u. u_email u = toLowerCase (envAt 2000 ''i2'') (dto_email dto1)) (users db_live) = None \<and>
        distinct (map sa_id (signupAttempts db_live)) \<and> sa_unique (signupAttempts db_live) \<and>
        attempt1 \<in> set (signupAttempts db_live) \<and>
        sa_email attempt1 = toLowerCase (envAt 2000 ''i2'') (dto_email dto1) \<and>
        sa_status attempt1 = IN_PROGRESS \<and> clock (envAt 2000 ''i2'') < sa_expiresAt attempt1 \<and>
        int4 (sa_attemptCount attempt1 + 1) \<and> cfg1 ''JWT_SIGNUP_SECRET'' \<noteq> None \<and>
        cfg1 ''JWT_SIGNUP_SECRET'' \<noteq> Some [] \<and>
        timespan (envAt 2000 ''i2'') (cfg_or cfg1 ''JWT_SIGNUP_EXPIRY'' ''2h'') \<noteq> None"
    by (simp add: envAt_def validDate_def readSpan_def dto1_def envAt_lower lower_ab
        db_live_def sa_unique_def attempt1_def int4_def cfg1_def cfg_or_def)
  note t = create_conflict_only_for_existing_user
             [where e = "envAt 2000 ''i2''" and em = "''A@b''" and d = db1 and cfg = cfg1
                and f = "''F''" and l = "''L''" and p = "''pw''" and dto = dto1]
  note u = create_conflict_only_for_existing_user
             [where e = "envAt 2000 ''i2''" and em = "''A@b''" and d = db_live and cfg = cfg1
                and f = "''F''" and l = "''L''" and p = "''pw''" and dto = dto1]
  from t p1 have a: "createSignupAttempt cfg1 (envAt 2000 ''i2'') ''A@b'' ''F'' ''L'' ''pw'' db1 =
     (Inl (ConflictException ''An account with this email already exists''), db1)"
    by blast
  from u p2 have b: "createSignupAttempt cfg1 (envAt 2000 ''i2'') ''A@b'' ''F'' ''L'' ''pw'' db_live =
     (Inl (InternalServerErrorException ''Failed to create signup attempt''), db_live)"
    by blast
  from u p3 obtain tok d' where
    "signup cfg1 (envAt 2000 ''i2'') dto1 db_live =
      (SignupSuccessResponseDto tok (sa_currentStep attempt1) (sa_id attempt1) (Some True)
         (Some (sa_completedSteps attempt1)), d')"
    "map sa_id (signupAttempts d') = map sa_id (signupAttempts db_live)"
    "rowsOf (sa_email attempt1) IN_PROGRESS d' =
       [attempt1\<lparr>sa_attemptCount := sa_attemptCount attempt1 + 1,
                 sa_updatedAt := clock (envAt 2000 ''i2'')\<rparr>]"
    by blast
  then have c: "\<exists>tok d'. signup cfg1 (envAt 2000 ''i2'') dto1 db_live =
      (SignupSuccessResponseDto tok ''email_verification'' ''i1'' (Some True) (Some []), d') \<and>
      map sa_id (signupAttempts d') = [''i1''] \<and>
      rowsOf ''a@b'' IN_PROGRESS d' = [attempt1\<lparr>sa_attemptCount := 2, sa_updatedAt := 2000\<rparr>]"
    by (simp add: attempt1_def db_live_def envAt_def validDate_def readSpan_def)
  from a b c show ?thesis by blast
qed

text \<open>
  Claim C3 as stated fails: with no user and the unexpired \<open>IN_PROGRESS\<close> attempt of
  \<open>a@b\<close> in the store, \<open>createSignupAttempt\<close> for \<open>a@b\<close> fails with the
  internal-server-error that wraps the index violation, which is not a conflict.
\<close>

theorem create_on_live_attempt_counterexample:
  "rowsOf ''a@b'' IN_PROGRESS db_live = [attempt1] \<and> 2000 < sa_expiresAt attempt1 \<and>
   users db_live = [] \<and>
   fst (createSignupAttempt Map.empty (envAt 2000 ''i2'') ''a@b'' ''F'' ''L'' ''pw'' db_live)
     = Inl (InternalServerErrorException ''Failed to create signup attempt'') \<and>
   \<not> isConflict
       (fst (createSignupAttempt Map.empty (envAt 2000 ''i2'') ''a@b'' ''F'' ''L'' ''pw'' db_live))"
proof -
  have nouser: "find (\<lambda>u. u_email u = toLowerCase (envAt 2000 ''i2'') ''a@b'') (users db_live) = None"
    by (simp add: db_live_def)
  have rows: "rowsOf ''a@b'' IN_PROGRESS db_live = [attempt1]"
    by (simp add: rowsOf_def db_live_def attempt1_def)
  then have taken: "rowsOf (toLowerCase (envAt 2000 ''i2'') ''a@b'') IN_PROGRESS db_live \<noteq> []"
    by (simp add: envAt_lower lower_ab)
  have live: "2000 < sa_expiresAt attempt1" by (simp add: attempt1_def)
  have nu: "users db_live = []" by (simp add: db_live_def)
  from rows live nu create_taken [OF nouser taken] show ?thesis by simp
qed

section \<open>Rotation: revoke, then issue\<close>

lemma find_map_same_id:
  "find (\<lambda>r. rt_id r = i) (map (\<lambda>r. if rt_id r = j then r\<lparr>rt_revoked := True\<rparr> else r) xs)
   = map_option (\<lambda>r. if rt_id r = j then r\<lparr>rt_revoked := True\<rparr> else r)
       (find (\<lambda>r. rt_id r = i) xs)"
  by (induction xs) auto

lemma find_append_Some: "find P xs = Some x \<Longrightarrow> find P (xs @ ys) = Some x"
  by (induction xs) (auto split: if_splits)

lemma rt_update_revoked_Inr:
  "rt_update_revoked ok i d = Inr d1 \<Longrightarrow>
   ok \<and> (\<exists>r. find (\<lambda>r. rt_id r = i) (refreshTokens d) = Some r) \<and>
   d1 = d\<lparr>refreshTokens :=
            map (\<lambda>r. if rt_id r = i then r\<lparr>rt_revoked := True\<rparr> else r) (refreshTokens d)\<rparr>"
  by (auto simp: rt_update_revoked_def split: if_splits option.splits)

lemma generate_Inr:
  assumes "generateRefreshToken cfg e uid d = (Inr (tok, ex, tid), d')"
  shows "tid = randomUUID e \<and> tid \<notin> set (map rt_id (refreshTokens d)) \<and>
         uid \<in> set (map u_id (users d)) \<and> storeUp e 0 \<and>
         d' = d\<lparr>refreshTokens := refreshTokens d @
                 [\<lparr>rt_id = tid, rt_token = tok, rt_userId = uid, rt_revoked = False,
                   rt_expiresAt = ex, rt_createdAt = clock e\<rparr>]\<rparr>"
  using assms
  by (auto simp: generateRefreshToken_def rt_create_def Let_def
           split: sum.splits option.splits if_splits)

lemma generate_Inl:
  "generateRefreshToken cfg e uid d = (Inl x, d') \<Longrightarrow>
   d' = d \<and> x = InternalServerErrorException ''Failed to generate refresh token''"
  by (auto simp: generateRefreshToken_def Let_def split: sum.splits option.splits)

lemma map_ids_revoked:
  "map rt_id (map (\<lambda>r. if rt_id r = i then r\<lparr>rt_revoked := True\<rparr> else r) xs) = map rt_id xs"
  by (induction xs) auto

lemma filter_new_rows:
  assumes "rt_id new \<notin> set (map rt_id xs)" and "map rt_id ys = map rt_id xs"
  shows "filter (\<lambda>r. rt_id r \<notin> set (map rt_id xs)) (ys @ [new]) = [new]"
proof -
  have "set (map rt_id ys) = set (map rt_id xs)" using assms(2) by simp
  then have "\<forall>r\<in>set ys. rt_id r \<in> set (map rt_id xs)" by auto
  then have "filter (\<lambda>r. rt_id r \<notin> set (map rt_id xs)) ys = []"
    by (auto simp: filter_empty_conv)
  with assms(1) show ?thesis by simp
qed

lemma shouldRotate_true_older:
  assumes rot: "shouldRotateRefreshToken cfg e i d = Inr True"
      and days: "parseInt10 (cfg_get cfg ''REFRESH_TOKEN_ROTATION_DAYS'' ''7'') = Some n"
      and pos: "0 < n"
      and old: "find (\<lambda>r. rt_id r = i) (refreshTokens d) = Some old"
  shows "rt_createdAt old < clock e"
proof -
  from rot have up: "storeUp e 0"
    by (auto simp: shouldRotateRefreshToken_def rt_findUnique_def split: if_splits)
  with rot days old have "n * 86400000 \<le> clock e - rt_createdAt old"
    by (simp add: shouldRotateRefreshToken_def rt_findUnique_def Let_def days_le_iff)
  with pos show ?thesis by linarith
qed

lemma rotate_success:
  assumes rot: "rotateRefreshToken cfg e oldId uid d = (Inr (tok, ex), d')"
  shows "\<exists>old new.
           find (\<lambda>r. rt_id r = oldId) (refreshTokens d) = Some old \<and>
           find (\<lambda>r. rt_id r = oldId) (refreshTokens d') = Some (old\<lparr>rt_revoked := True\<rparr>) \<and>
           refreshTokens d' =
             map (\<lambda>r. if rt_id r = oldId then r\<lparr>rt_revoked := True\<rparr> else r)
               (refreshTokens d) @ [new] \<and>
           new = \<lparr>rt_id = randomUUID e, rt_token = tok, rt_userId = uid, rt_revoked = False,
                   rt_expiresAt = ex, rt_createdAt = clock e\<rparr> \<and>
           rt_id new \<notin> set (map rt_id (refreshTokens d)) \<and>
           filter (\<lambda>r. rt_id r \<notin> set (map rt_id (refreshTokens d))) (refreshTokens d') = [new] \<and>
           (\<exists>d1. rt_update_revoked (storeUp e 0) oldId d = Inr d1 \<and>
                 generateRefreshToken cfg (after 1 e) uid d1 = (Inr (tok, ex, rt_id new), d'))"
proof -
  let ?g = "\<lambda>r. if rt_id r = oldId then r\<lparr>rt_revoked := True\<rparr> else r"
  from rot obtain d1 tid where
    u: "rt_update_revoked (storeUp e 0) oldId d = Inr d1" and
    g: "generateRefreshToken cfg (after 1 e) uid d1 = (Inr (tok, ex, tid), d')"
    by (auto simp: rotateRefreshToken_def split: sum.splits prod.splits)
  from rt_update_revoked_Inr [OF u] obtain old where
    old: "find (\<lambda>r. rt_id r = oldId) (refreshTokens d) = Some old" and
    d1: "d1 = d\<lparr>refreshTokens := map ?g (refreshTokens d)\<rparr>"
    by blast
  let ?new = "\<lparr>rt_id = randomUUID e, rt_token = tok, rt_userId = uid, rt_revoked = False,
               rt_expiresAt = ex, rt_createdAt = clock e\<rparr>"
  from generate_Inr [OF g] have tid: "tid = randomUUID e"
    and fresh1: "tid \<notin> set (map rt_id (refreshTokens d1))"
    and d': "d' = d1\<lparr>refreshTokens := refreshTokens d1 @ [?new]\<rparr>"
    by (auto simp: after_simps)
  have rows: "refreshTokens d' = map ?g (refreshTokens d) @ [?new]"
    using d' d1 by simp
  have fresh: "rt_id ?new \<notin> set (map rt_id (refreshTokens d))"
  proof -
    have r1: "refreshTokens d1 = map ?g (refreshTokens d)" using d1 by simp
    have "map rt_id (refreshTokens d1) = map rt_id (refreshTokens d)"
      unfolding r1 by (rule map_ids_revoked)
    then have "set (map rt_id (refreshTokens d1)) = set (map rt_id (refreshTokens d))"
      by (rule arg_cong)
    with fresh1 tid show ?thesis by simp
  qed
  have idold: "rt_id old = oldId" using old by (auto simp: find_Some_iff)
  have "find (\<lambda>r. rt_id r = oldId) (map ?g (refreshTokens d)) = Some (old\<lparr>rt_revoked := True\<rparr>)"
    using old idold by (simp add: find_map_same_id)
  then have f': "find (\<lambda>r. rt_id r = oldId) (refreshTokens d') = Some (old\<lparr>rt_revoked := True\<rparr>)"
    unfolding rows by (rule find_append_Some)
  have flt: "filter (\<lambda>r. rt_id r \<notin> set (map rt_id (refreshTokens d))) (refreshTokens d') = [?new]"
    unfolding rows by (rule filter_new_rows [OF fresh map_ids_revoked])
  from old f' rows fresh flt u g tid show ?thesis by auto
qed

text \<open>
  Claim C1, as amended. When \<open>rotateRefreshToken\<close> returns a token, the row of the
  old id existed and is now revoked; the table is the old one with that row revoked,
  followed by exactly one row whose id was not there before: it belongs to the user
  given, is not revoked, holds the returned token and expiry, and its \<open>createdAt\<close> is
  the clock of the call. That is later than the old row's \<open>createdAt\<close> whenever the
  clock has advanced since the old row was written, and in particular whenever
  \<open>shouldRotateRefreshToken\<close> had answered true for the old id under a threshold of at
  least one day (the check \<open>refreshApplication\<close> makes before it rotates). The new row
  was issued against the store in which the revocation was already written. When the
  revoking write fails nothing is issued and the store is untouched; when the issue
  fails after it, the store keeps the revocation and holds no new row.
\<close>

theorem rotate_revokes_then_issues:
  "(\<forall>tok ex d'. rotateRefreshToken cfg e oldId uid d = (Inr (tok, ex), d') \<longrightarrow>
      (\<exists>old new.
           find (\<lambda>r. rt_id r = oldId) (refreshTokens d) = Some old \<and>
           find (\<lambda>r. rt_id r = oldId) (refreshTokens d') = Some (old\<lparr>rt_revoked := True\<rparr>) \<and>
           refreshTokens d' =
             map (\<lambda>r. if rt_id r = oldId then r\<lparr>rt_revoked := True\<rparr> else r)
               (refreshTokens d) @ [new] \<and>
           rt_id new \<notin> set (map rt_id (refreshTokens d)) \<and>
           filter (\<lambda>r. rt_id r \<notin> set (map rt_id (refreshTokens d))) (refreshTokens d') = [new] \<and>
           rt_userId new = uid \<and> \<not> rt_revoked new \<and> rt_token new = tok \<and>
           rt_expiresAt new = ex \<and> rt_createdAt new = clock e \<and>
           (rt_createdAt old < clock e \<longrightarrow> rt_createdAt old < rt_createdAt new) \<and>
           (\<forall>n e0. parseInt10 (cfg_get cfg ''REFRESH_TOKEN_ROTATION_DAYS'' ''7'') = Some n \<and>
                   0 < n \<and> shouldRotateRefreshToken cfg e0 oldId d = Inr True \<and>
                   clock e0 \<le> clock e \<longrightarrow>
                   rt_createdAt old < rt_createdAt new) \<and>
           (\<exists>d1. rt_update_revoked (storeUp e 0) oldId d = Inr d1 \<and>
                 generateRefreshToken cfg (after 1 e) uid d1 = (Inr (tok, ex, rt_id new), d')))) \<and>
   (\<forall>x. rt_update_revoked (storeUp e 0) oldId d = Inl x \<longrightarrow>
      rotateRefreshToken cfg e oldId uid d =
        (Inl (InternalServerErrorException ''Failed to rotate refresh token''), d)) \<and>
   (\<forall>d1 x d2. rt_update_revoked (storeUp e 0) oldId d = Inr d1 \<and>
      generateRefreshToken cfg (after 1 e) uid d1 = (Inl x, d2) \<longrightarrow>
      rotateRefreshToken cfg e oldId uid d =
        (Inl (InternalServerErrorException ''Failed to rotate refresh token''), d1) \<and>
      d1 = d\<lparr>refreshTokens :=
               map (\<lambda>r. if rt_id r = oldId then r\<lparr>rt_revoked := True\<rparr> else r)
                 (refreshTokens d)\<rparr>)"
proof (intro conjI allI impI)
  fix tok ex d'
  assume "rotateRefreshToken cfg e oldId uid d = (Inr (tok, ex), d')"
  from rotate_success [OF this]
  show "\<exists>old new.
           find (\<lambda>r. rt_id r = oldId) (refreshTokens d) = Some old \<and>
           find (\<lambda>r. rt_id r = oldId) (refreshTokens d') = Some (old\<lparr>rt_revoked := True\<rparr>) \<and>
           refreshTokens d' =
             map (\<lambda>r. if rt_id r = oldId then r\<lparr>rt_revoked := True\<rparr> else r)
               (refreshTokens d) @ [new] \<and>
           rt_id new \<notin> set (map rt_id (refreshTokens d)) \<and>
           filter (\<lambda>r. rt_id r \<notin> set (map rt_id (refreshTokens d))) (refreshTokens d') = [new] \<and>
           rt_userId new = uid \<and> \<not> rt_revoked new \<and> rt_token new = tok \<and>
           rt_expiresAt new = ex \<and> rt_createdAt new = clock e \<and>
           (rt_createdAt old < clock e \<longrightarrow> rt_createdAt old < rt_createdAt new) \<and>
           (\<forall>n e0. parseInt10 (cfg_get cfg ''REFRESH_TOKEN_ROTATION_DAYS'' ''7'') = Some n \<and>
                   0 < n \<and> shouldRotateRefreshToken cfg e0 oldId d = Inr True \<and>
                   clock e0 \<le> clock e \<longrightarrow>
                   rt_createdAt old < rt_createdAt new) \<and>
           (\<exists>d1. rt_update_revoked (storeUp e 0) oldId d = Inr d1 \<and>
                 generateRefreshToken cfg (after 1 e) uid d1 = (Inr (tok, ex, rt_id new), d'))"
  proof (elim exE conjE, intro exI conjI allI impI)
    fix old new d1 n and e0 :: env
    assume o: "find (\<lambda>r. rt_id r = oldId) (refreshTokens d) = Some old"
       and n: "new = \<lparr>rt_id = randomUUID e, rt_token = tok, rt_userId = uid,
                       rt_revoked = False, rt_expiresAt = ex, rt_createdAt = clock e\<rparr>"
       and h: "parseInt10 (cfg_get cfg ''REFRESH_TOKEN_ROTATION_DAYS'' ''7'') = Some n \<and>
               0 < n \<and> shouldRotateRefreshToken cfg e0 oldId d = Inr True \<and>
               clock e0 \<le> clock e"
    from h o have "rt_createdAt old < clock e0"
      by (intro shouldRotate_true_older [of cfg e0 oldId d n old]) simp_all
    with h n show "rt_createdAt old < rt_createdAt new" by simp
  qed (assumption | simp)+
next
  fix x assume "rt_update_revoked (storeUp e 0) oldId d = Inl x"
  then show "rotateRefreshToken cfg e oldId uid d =
        (Inl (InternalServerErrorException ''Failed to rotate refresh token''), d)"
    by (simp add: rotateRefreshToken_def)
next
  fix d1 x d2
  assume h: "rt_update_revoked (storeUp e 0) oldId d = Inr d1 \<and>
      generateRefreshToken cfg (after 1 e) uid d1 = (Inl x, d2)"
  then have "d2 = d1" using generate_Inl by blast
  with h show "rotateRefreshToken cfg e oldId uid d =
        (Inl (InternalServerErrorException ''Failed to rotate refresh token''), d1)"
    by (simp add: rotateRefreshToken_def)
  from h show "d1 = d\<lparr>refreshTokens :=
               map (\<lambda>r. if rt_id r = oldId then r\<lparr>rt_revoked := True\<rparr> else r)
                 (refreshTokens d)\<rparr>"
    using rt_update_revoked_Inr by blast
qed


lemma parseInt10_30: "parseInt10 ''30'' = Some 30"
  by (simp add: parseInt10_def isWhite_def isDigit_def digitVal_def)

lemma scen_generate:
  "generateRefreshToken cfg1 (after 1 (envAt 700000000 ''t2'')) ''u1''
     (db1\<lparr>refreshTokens := [rtoken1\<lparr>rt_revoked := True\<rparr>]\<rparr>)
   = (Inr (tok_new, 3292000000, ''t2''),
      db1\<lparr>refreshTokens := [rtoken1\<lparr>rt_revoked := True\<rparr>, rtoken_new]\<rparr>)"
  by (simp add: generateRefreshToken_def cfg1_def cfg_get_def cfg_or_def getOrThrow_def
      parseInt10_30 jwt_sign_def rt_create_def after_def envAt_def validDate_def readSpan_def db1_def rtoken1_def
      user1_def tok_new_def rtoken_new_def Let_def)

lemma scen_revoke_write:
  "rt_update_revoked True ''t1'' db1 = Inr (db1\<lparr>refreshTokens := [rtoken1\<lparr>rt_revoked := True\<rparr>]\<rparr>)"
  by (simp add: rt_update_revoked_def db1_def rtoken1_def)

lemma scen_rotate:
  "rotateRefreshToken cfg1 (envAt 700000000 ''t2'') ''t1'' ''u1'' db1
   = (Inr (tok_new, 3292000000),
      db1\<lparr>refreshTokens := [rtoken1\<lparr>rt_revoked := True\<rparr>, rtoken_new]\<rparr>)"
proof -
  have "storeUp (envAt 700000000 ''t2'') 0" by (simp add: envAt_def validDate_def readSpan_def)
  then show ?thesis
    by (simp add: rotateRefreshToken_def scen_revoke_write scen_generate [unfolded One_nat_def])
qed

text \<open>
  Rotating \<open>t1\<close> of user \<open>u1\<close>, 700000000 ms old, under the default threshold: the
  old row is revoked and \<open>rtoken_new\<close> is appended; with the store down nothing
  changes; with the store answering the revoking write only, the revocation stays and
  no row is added.
\<close>

theorem rotate_witness:
  "rotateRefreshToken cfg1 (envAt 700000000 ''t2'') ''t1'' ''u1'' db1
     = (Inr (tok_new, 3292000000),
        db1\<lparr>refreshTokens := [rtoken1\<lparr>rt_revoked := True\<rparr>, rtoken_new]\<rparr>) \<and>
   rt_createdAt rtoken1 < rt_createdAt rtoken_new \<and>
   rotateRefreshToken cfg1 (envDown 700000000 ''t2'') ''t1'' ''u1'' db1
     = (Inl (InternalServerErrorException ''Failed to rotate refresh token''), db1) \<and>
   rotateRefreshToken cfg1 (envFirstOnly 700000000 ''t2'') ''t1'' ''u1'' db1
     = (Inl (InternalServerErrorException ''Failed to rotate refresh token''),
        db1\<lparr>refreshTokens := [rtoken1\<lparr>rt_revoked := True\<rparr>]\<rparr>)"
proof -
  note ok = rotate_revokes_then_issues
              [of cfg1 "envAt 700000000 ''t2''" "''t1''" "''u1''" db1]
  note dn = rotate_revokes_then_issues
              [of cfg1 "envDown 700000000 ''t2''" "''t1''" "''u1''" db1]
  note fo = rotate_revokes_then_issues
              [of cfg1 "envFirstOnly 700000000 ''t2''" "''t1''" "''u1''" db1]
  from ok scen_rotate obtain old new where
    o: "find (\<lambda>r. rt_id r = ''t1'') (refreshTokens db1) = Some old" and
    n: "refreshTokens (db1\<lparr>refreshTokens := [rtoken1\<lparr>rt_revoked := True\<rparr>, rtoken_new]\<rparr>) =
          map (\<lambda>r. if rt_id r = ''t1'' then r\<lparr>rt_revoked := True\<rparr> else r)
            (refreshTokens db1) @ [new]" and
    later: "\<forall>n e0. parseInt10 (cfg_get cfg1 ''REFRESH_TOKEN_ROTATION_DAYS'' ''7'') = Some n \<and>
                   0 < n \<and> shouldRotateRefreshToken cfg1 e0 ''t1'' db1 = Inr True \<and>
                   clock e0 \<le> clock (envAt 700000000 ''t2'') \<longrightarrow>
                   rt_createdAt old < rt_createdAt new"
    by blast
  from o have old: "old = rtoken1" by (simp add: db1_def rtoken1_def)
  from n have new: "new = rtoken_new" by (simp add: db1_def)
  have due: "parseInt10 (cfg_get cfg1 ''REFRESH_TOKEN_ROTATION_DAYS'' ''7'') = Some 7 \<and>
             (0::int) < 7 \<and>
             shouldRotateRefreshToken cfg1 (envAt 700000000 ''t2'') ''t1'' db1 = Inr True \<and>
             clock (envAt 700000000 ''t2'') \<le> clock (envAt 700000000 ''t2'')"
    by (simp add: cfg1_def cfg_get_def parseInt10_7 shouldRotateRefreshToken_def
        rt_findUnique_def envAt_def validDate_def readSpan_def db1_def rtoken1_def Let_def)
  from later [rule_format, OF due] old new
  have l: "rt_createdAt rtoken1 < rt_createdAt rtoken_new" by simp
  have "rt_update_revoked (storeUp (envDown 700000000 ''t2'') 0) ''t1'' db1 = Inl Unavailable"
    by (simp add: rt_update_revoked_def envDown_def envAt_def validDate_def readSpan_def)
  with dn have a: "rotateRefreshToken cfg1 (envDown 700000000 ''t2'') ''t1'' ''u1'' db1
     = (Inl (InternalServerErrorException ''Failed to rotate refresh token''), db1)"
    by blast
  have u1: "rt_update_revoked (storeUp (envFirstOnly 700000000 ''t2'') 0) ''t1'' db1 =
            Inr (db1\<lparr>refreshTokens := [rtoken1\<lparr>rt_revoked := True\<rparr>]\<rparr>)"
    by (simp add: envFirstOnly_def envAt_def validDate_def readSpan_def scen_revoke_write)
  have g1: "generateRefreshToken cfg1 (after 1 (envFirstOnly 700000000 ''t2'')) ''u1''
              (db1\<lparr>refreshTokens := [rtoken1\<lparr>rt_revoked := True\<rparr>]\<rparr>) =
            (Inl (InternalServerErrorException ''Failed to generate refresh token''),
             db1\<lparr>refreshTokens := [rtoken1\<lparr>rt_revoked := True\<rparr>]\<rparr>)"
    by (simp add: generateRefreshToken_def cfg1_def cfg_get_def cfg_or_def getOrThrow_def
      parseInt10_30 jwt_sign_def rt_create_def after_def envFirstOnly_def envAt_def validDate_def readSpan_def Let_def)
  from fo u1 g1 have b: "rotateRefreshToken cfg1 (envFirstOnly 700000000 ''t2'') ''t1'' ''u1'' db1
     = (Inl (InternalServerErrorException ''Failed to rotate refresh token''),
        db1\<lparr>refreshTokens := [rtoken1\<lparr>rt_revoked := True\<rparr>]\<rparr>)"
    by blast
  from scen_rotate l a b show ?thesis by simp
qed

text \<open>
  Claim C1 as stated fails: \<open>rotateRefreshToken\<close> makes no check of the old row's age.
  Rotating \<open>t1\<close> in the millisecond of its creation succeeds, and the new row's
  \<open>createdAt\<close> equals the old row's instead of being later.
\<close>

theorem rotate_same_millisecond_counterexample:
  "rotateRefreshToken cfg1 (envAt 0 ''t2'') ''t1'' ''u1'' db1
     = (Inr (tok_same, 2592000000),
        db1\<lparr>refreshTokens := [rtoken1\<lparr>rt_revoked := True\<rparr>, rtoken_same]\<rparr>) \<and>
   rt_createdAt rtoken_same = rt_createdAt rtoken1 \<and>
   \<not> rt_createdAt rtoken1 < rt_createdAt rtoken_same"
proof -
  have g: "generateRefreshToken cfg1 (after (Suc 0) (envAt 0 ''t2'')) ''u1''
             (db1\<lparr>refreshTokens := [rtoken1\<lparr>rt_revoked := True\<rparr>]\<rparr>)
           = (Inr (tok_same, 2592000000, ''t2''),
              db1\<lparr>refreshTokens := [rtoken1\<lparr>rt_revoked := True\<rparr>, rtoken_same]\<rparr>)"
    by (simp add: generateRefreshToken_def cfg1_def cfg_get_def cfg_or_def getOrThrow_def
        parseInt10_30 jwt_sign_def rt_create_def after_def envAt_def validDate_def
        readSpan_def db1_def rtoken1_def user1_def tok_same_def rtoken_same_def Let_def)
  have up: "storeUp (envAt 0 ''t2'') 0" by (simp add: envAt_def)
  have r: "rotateRefreshToken cfg1 (envAt 0 ''t2'') ''t1'' ''u1'' db1
     = (Inr (tok_same, 2592000000),
        db1\<lparr>refreshTokens := [rtoken1\<lparr>rt_revoked := True\<rparr>, rtoken_same]\<rparr>)"
    using up by (simp add: rotateRefreshToken_def scen_revoke_write g)
  have c: "rt_createdAt rtoken_same = rt_createdAt rtoken1"
    by (simp add: rtoken_same_def rtoken1_def)
  from r c show ?thesis by simp
qed

section \<open>Revocation\<close>

lemma map_revoke_twice:
  "map (\<lambda>r. if P r then r\<lparr>rt_revoked := True\<rparr> else r)
     (map (\<lambda>r. if P r then r\<lparr>rt_revoked := True\<rparr> else r) xs)
   = map (\<lambda>r. if P r then r\<lparr>rt_revoked := True\<rparr> else r) xs"
  by (induction xs) auto

lemma map_revokeAll_twice:
  "map (\<lambda>r. if rt_userId r = u \<and> \<not> rt_revoked r then r\<lparr>rt_revoked := True\<rparr> else r)
     (map (\<lambda>r. if rt_userId r = u \<and> \<not> rt_revoked r then r\<lparr>rt_revoked := True\<rparr> else r) xs)
   = map (\<lambda>r. if rt_userId r = u \<and> \<not> rt_revoked r then r\<lparr>rt_revoked := True\<rparr> else r) xs"
  by (induction xs) auto

text \<open>
  Both revocations are idempotent: under one environment a second call leaves the
  store as the first call left it.
\<close>

lemma revoke_idempotent:
  "snd (revokeRefreshToken e tid (snd (revokeRefreshToken e tid d))) =
   snd (revokeRefreshToken e tid d)"
proof (cases "storeUp e 0")
  case False
  then show ?thesis by (simp add: revokeRefreshToken_def rt_update_revoked_def)
next
  case True
  show ?thesis
  proof (cases "find (\<lambda>r. rt_id r = tid) (refreshTokens d)")
    case None
    with True show ?thesis by (simp add: revokeRefreshToken_def rt_update_revoked_def)
  next
    case (Some r)
    with True show ?thesis
      by (simp add: revokeRefreshToken_def rt_update_revoked_def find_map_same_id
          map_revoke_twice)
  qed
qed

lemma revokeAll_idempotent:
  "snd (revokeAllUserRefreshTokens e uid (snd (revokeAllUserRefreshTokens e uid d))) =
   snd (revokeAllUserRefreshTokens e uid d)"
  by (cases "storeUp e 0")
     (simp_all add: revokeAllUserRefreshTokens_def rt_updateMany_revoked_def
        map_revokeAll_twice)

text \<open>
  Claim C7, the part the code does not meet. Neither revocation ever raises: whenever
  the write to the store fails, \<open>revokeRefreshToken\<close> and
  \<open>revokeAllUserRefreshTokens\<close> return normally and the store is as before, so the
  failure does not reach the caller.
\<close>

theorem revocation_failure_is_absorbed:
  "(\<forall>x. rt_update_revoked (storeUp e 0) tid d = Inl x \<longrightarrow>
        revokeRefreshToken e tid d = (Inr (), d)) \<and>
   (\<forall>x. rt_updateMany_revoked (storeUp e 0) uid d = Inl x \<longrightarrow>
        revokeAllUserRefreshTokens e uid d = (Inr (), d)) \<and>
   (\<exists>d'. revokeRefreshToken e tid d = (Inr (), d')) \<and>
   (\<exists>d'. revokeAllUserRefreshTokens e uid d = (Inr (), d'))"
  by (auto simp: revokeRefreshToken_def revokeAllUserRefreshTokens_def split: sum.splits)

text \<open>
  With the store down both revocations return normally and row \<open>t1\<close> of user \<open>u1\<close>
  stays unrevoked, whereas \<open>rotateRefreshToken\<close>, whose first step is the same write,
  raises the internal-server-error.
\<close>

theorem revocation_store_down_witness:
  "revokeRefreshToken (envDown 5 ''x'') ''t1'' db1 = (Inr (), db1) \<and>
   revokeAllUserRefreshTokens (envDown 5 ''x'') ''u1'' db1 = (Inr (), db1) \<and>
   find (\<lambda>r. rt_id r = ''t1'') (refreshTokens db1) = Some rtoken1 \<and>
   rt_userId rtoken1 = ''u1'' \<and> rt_revoked rtoken1 = False \<and>
   rotateRefreshToken cfg1 (envDown 5 ''x'') ''t1'' ''u1'' db1 =
     (Inl (InternalServerErrorException ''Failed to rotate refresh token''), db1)"
proof -
  have a: "rt_update_revoked (storeUp (envDown 5 ''x'') 0) ''t1'' db1 = Inl Unavailable"
    by (simp add: rt_update_revoked_def envDown_def envAt_def validDate_def readSpan_def)
  have b: "rt_updateMany_revoked (storeUp (envDown 5 ''x'') 0) ''u1'' db1 = Inl Unavailable"
    by (simp add: rt_updateMany_revoked_def envDown_def envAt_def validDate_def readSpan_def)
  note t = revocation_failure_is_absorbed [of "envDown 5 ''x''" "''t1''" db1 "''u1''"]
  from t a have 1: "revokeRefreshToken (envDown 5 ''x'') ''t1'' db1 = (Inr (), db1)"
    by blast
  from t b have 2: "revokeAllUserRefreshTokens (envDown 5 ''x'') ''u1'' db1 = (Inr (), db1)"
    by blast
  have 3: "find (\<lambda>r. rt_id r = ''t1'') (refreshTokens db1) = Some rtoken1"
    by (simp add: db1_def rtoken1_def)
  have 4: "rt_userId rtoken1 = ''u1'' \<and> rt_revoked rtoken1 = False" by (simp add: rtoken1_def)
  have 5: "rotateRefreshToken cfg1 (envDown 5 ''x'') ''t1'' ''u1'' db1 =
     (Inl (InternalServerErrorException ''Failed to rotate refresh token''), db1)"
    using a by (simp add: rotateRefreshToken_def)
  from 1 2 3 4 5 show ?thesis by simp
qed

section \<open>Refreshing a session of an inactive user\<close>

lemma verifyRefresh_Signed:
  "verifyRefreshToken cfg e t = Inr p \<Longrightarrow>
   \<exists>k iat ex. t = Signed p k iat ex \<and> p_type p = Some ''refresh''"
  by (auto simp: verifyRefreshToken_def jwt_verify_def Let_def
           split: sum.splits token.splits if_splits)

text \<open>
  Claim C4. For a refresh token that passes \<open>verifyRefreshToken\<close>, whose row is found
  (the store answering), not revoked and not expired, and whose owning user has a
  status other than \<open>ACTIVE\<close>, \<open>refreshApplication\<close> returns the failure \<open>User account
  is not active\<close>, which is not a success, and leaves the store unchanged.
\<close>

theorem refresh_inactive_user_never_succeeds:
  assumes ver: "verifyRefreshToken cfg e t = Inr payload"
      and tid: "p_tokenId payload = Some tokenId"
      and up: "storeUp e 0"
      and row: "find (\<lambda>r. rt_id r = tokenId) (refreshTokens d) = Some tokenRecord"
      and nrev: "\<not> rt_revoked tokenRecord"
      and nexp: "\<not> rt_expiresAt tokenRecord < clock e"
      and own: "find (\<lambda>u. u_id u = rt_userId tokenRecord) (users d) = Some user"
      and inactive: "u_status user \<noteq> ACTIVE"
  shows "refreshApplication cfg e (Some t) d =
           (RefreshFailureResponseDto ''User account is not active'' (Some ''/login''), d) \<and>
         \<not> isRefreshSuccess (fst (refreshApplication cfg e (Some t) d))"
proof -
  from verifyRefresh_Signed [OF ver] have nonempty: "t \<noteq> Opaque []" by auto
  have "refreshApplication_try cfg e t d =
          (Inr (RefreshFailureResponseDto ''User account is not active'' (Some ''/login'')), d)"
    using ver tid up row nrev nexp own inactive
    by (simp add: refreshApplication_try_def rt_findUnique_def)
  with nonempty show ?thesis by (simp add: refreshApplication_def)
qed

text \<open>
  The suspended user \<open>u2\<close> presents the valid, live, unrevoked token \<open>tok2\<close>.
\<close>

theorem refresh_suspended_user_witness:
  "refreshApplication cfg1 (envAt 1000 ''x'') (Some tok2) db2 =
     (RefreshFailureResponseDto ''User account is not active'' (Some ''/login''), db2) \<and>
   verifyRefreshToken cfg1 (envAt 1000 ''x'') tok2 =
     Inr \<lparr>p_sub = Some ''u2'', p_email = None, p_tokenId = Some ''t3'',
           p_attemptId = None, p_currentStep = None, p_type = Some ''refresh''\<rparr> \<and>
   u_status user2 = SUSPENDED"
proof -
  let ?p = "\<lparr>p_sub = Some ''u2'', p_email = None, p_tokenId = Some ''t3'',
             p_attemptId = None, p_currentStep = None, p_type = Some ''refresh''\<rparr>"
  have ver: "verifyRefreshToken cfg1 (envAt 1000 ''x'') tok2 = Inr ?p"
    by (simp add: verifyRefreshToken_def getOrThrow_def cfg1_def jwt_verify_def tok2_def
        envAt_def validDate_def readSpan_def Let_def)
  have tid: "p_tokenId ?p = Some ''t3''" by simp
  have up: "storeUp (envAt 1000 ''x'') 0" by (simp add: envAt_def validDate_def readSpan_def)
  have row: "find (\<lambda>r. rt_id r = ''t3'') (refreshTokens db2) = Some rtoken2"
    by (simp add: db2_def rtoken1_def rtoken2_def)
  have nrev: "\<not> rt_revoked rtoken2" by (simp add: rtoken2_def)
  have nexp: "\<not> rt_expiresAt rtoken2 < clock (envAt 1000 ''x'')"
    by (simp add: rtoken2_def envAt_def validDate_def readSpan_def)
  have own: "find (\<lambda>u. u_id u = rt_userId rtoken2) (users db2) = Some user2"
    by (simp add: db2_def rtoken2_def user1_def user2_def)
  have inactive: "u_status user2 \<noteq> ACTIVE" by (simp add: user2_def)
  from refresh_inactive_user_never_succeeds [OF ver tid up row nrev nexp own inactive] ver
  show ?thesis by (simp add: user2_def)
qed

section \<open>Signup tokens and token kinds\<close>

lemma verifySignup_wrong_type:
  "p_type p \<noteq> Some ''signup'' \<Longrightarrow>
   verifySignupToken cfg e (Signed p k i x) =
     Inl (UnauthorizedException ''Invalid or expired signup token'')"
  by (simp add: verifySignupToken_def jwt_verify_def Let_def split: sum.splits)

lemma verifyRefresh_wrong_type:
  "p_type p \<noteq> Some ''refresh'' \<Longrightarrow>
   verifyRefreshToken cfg e (Signed p k i x) =
     Inl (UnauthorizedException ''Invalid or expired refresh token'')"
  by (simp add: verifyRefreshToken_def jwt_verify_def Let_def split: sum.splits)

lemma verifySignup_Signed:
  "verifySignupToken cfg e t = Inr p \<Longrightarrow>
   \<exists>k iat ex. t = Signed p k iat ex \<and> p_type p = Some ''signup''"
  by (auto simp: verifySignupToken_def jwt_verify_def Let_def
           split: sum.splits token.splits if_splits)

lemma generateRefresh_type:
  "generateRefreshToken cfg e uid d = (Inr (tok, ex, tid), d') \<Longrightarrow>
   \<exists>p k i x. tok = Signed p k i x \<and> p_type p = Some ''refresh''"
  by (auto simp: generateRefreshToken_def jwt_sign_def Let_def
           split: sum.splits option.splits if_splits)

lemma generateSignup_type:
  "generateSignupToken cfg e a em st = Inr tok \<Longrightarrow>
   \<exists>p k i x. tok = Signed p k i x \<and> p_type p = Some ''signup''"
  by (auto simp: generateSignupToken_def jwt_sign_def Let_def
           split: sum.splits option.splits if_splits)

lemma generateSignup_Inr:
  assumes "generateSignupToken cfg e a em st = Inr tok"
  shows "\<exists>k n. cfg ''JWT_SIGNUP_SECRET'' = Some k \<and> k \<noteq> [] \<and>
               timespan e (cfg_or cfg ''JWT_SIGNUP_EXPIRY'' ''2h'') = Some n \<and>
               tok = Signed \<lparr>p_sub = None, p_email = Some em, p_tokenId = None,
                             p_attemptId = Some a, p_currentStep = Some st,
                             p_type = Some ''signup''\<rparr>
                       k (clock e div 1000) (clock e div 1000 + n)"
  using assms
  by (auto simp: generateSignupToken_def getOrThrow_def jwt_sign_def Let_def
           split: option.splits if_splits)

lemma verifySignup_before_expiry:
  assumes "cfg ''JWT_SIGNUP_SECRET'' = Some k" and "k \<noteq> []"
      and "p_type p = Some ''signup''" and "clock e' div 1000 < ex"
  shows "verifySignupToken cfg e' (Signed p k iat ex) = Inr p"
  using assms by (simp add: verifySignupToken_def getOrThrow_def jwt_verify_def)

text \<open>
  Claim C6. Every token \<open>generateSignupToken\<close> produces for an attempt id, an email and
  a current step is verified by \<open>verifySignupToken\<close>, under the same configuration and
  at any time before the token's expiry second, to a payload with exactly that
  attempt id, email and current step (and type \<open>signup\<close>); and a token is produced
  whenever a non-empty signup key is configured and the expiry setting is readable.
  Whatever the configuration and the time, the signup verifier fails with the
  unauthorized error on every token whose type is \<open>refresh\<close>, hence on every token the
  refresh verifier accepts and on every token \<open>generateRefreshToken\<close> issues; and the
  refresh verifier fails likewise on every token of type \<open>signup\<close>, every token the
  signup verifier accepts and every token \<open>generateSignupToken\<close> issues.
\<close>

theorem signup_token_roundtrip_and_kind_separation:
  "(\<forall>tok. generateSignupToken cfg e attemptId email currentStep = Inr tok \<longrightarrow>
      (\<exists>p k ex. tok = Signed p k (clock e div 1000) ex \<and>
         p_attemptId p = Some attemptId \<and> p_email p = Some email \<and>
         p_currentStep p = Some currentStep \<and> p_type p = Some ''signup'' \<and>
         (\<forall>e'. clock e' div 1000 < ex \<longrightarrow> verifySignupToken cfg e' tok = Inr p))) \<and>
   (\<forall>k n. cfg ''JWT_SIGNUP_SECRET'' = Some k \<and> k \<noteq> [] \<and>
          timespan e (cfg_or cfg ''JWT_SIGNUP_EXPIRY'' ''2h'') = Some n \<longrightarrow>
      generateSignupToken cfg e attemptId email currentStep =
        Inr (Signed \<lparr>p_sub = None, p_email = Some email, p_tokenId = None,
                     p_attemptId = Some attemptId, p_currentStep = Some currentStep,
                     p_type = Some ''signup''\<rparr>
               k (clock e div 1000) (clock e div 1000 + n))) \<and>
   (\<forall>p k i x. p_type p = Some ''refresh'' \<longrightarrow>
      verifySignupToken cfg e (Signed p k i x) =
        Inl (UnauthorizedException ''Invalid or expired signup token'')) \<and>
   (\<forall>p k i x. p_type p = Some ''signup'' \<longrightarrow>
      verifyRefreshToken cfg e (Signed p k i x) =
        Inl (UnauthorizedException ''Invalid or expired refresh token'')) \<and>
   (\<forall>cfg' e' t p. verifyRefreshToken cfg' e' t = Inr p \<longrightarrow>
      verifySignupToken cfg e t =
        Inl (UnauthorizedException ''Invalid or expired signup token'')) \<and>
   (\<forall>cfg' e' t p. verifySignupToken cfg' e' t = Inr p \<longrightarrow>
      verifyRefreshToken cfg e t =
        Inl (UnauthorizedException ''Invalid or expired refresh token'')) \<and>
   (\<forall>cfg' e' uid d tok ex tid d'.
      generateRefreshToken cfg' e' uid d = (Inr (tok, ex, tid), d') \<longrightarrow>
      verifySignupToken cfg e tok =
        Inl (UnauthorizedException ''Invalid or expired signup token'')) \<and>
   (\<forall>cfg' e' a em st tok.
      generateSignupToken cfg' e' a em st = Inr tok \<longrightarrow>
      verifyRefreshToken cfg e tok =
        Inl (UnauthorizedException ''Invalid or expired refresh token''))"
proof (intro conjI allI impI)
  fix tok
  assume "generateSignupToken cfg e attemptId email currentStep = Inr tok"
  from generateSignup_Inr [OF this] obtain k n where
    key: "cfg ''JWT_SIGNUP_SECRET'' = Some k" "k \<noteq> []" and
    tok: "tok = Signed \<lparr>p_sub = None, p_email = Some email, p_tokenId = None,
                        p_attemptId = Some attemptId, p_currentStep = Some currentStep,
                        p_type = Some ''signup''\<rparr>
                  k (clock e div 1000) (clock e div 1000 + n)"
    by blast
  let ?p = "\<lparr>p_sub = None, p_email = Some email, p_tokenId = None,
             p_attemptId = Some attemptId, p_currentStep = Some currentStep,
             p_type = Some ''signup''\<rparr>"
  have ver: "verifySignupToken cfg e' tok = Inr ?p"
    if "clock e' div 1000 < clock e div 1000 + n" for e'
    unfolding tok using key that by (intro verifySignup_before_expiry) simp_all
  show "\<exists>p k ex. tok = Signed p k (clock e div 1000) ex \<and>
         p_attemptId p = Some attemptId \<and> p_email p = Some email \<and>
         p_currentStep p = Some currentStep \<and> p_type p = Some ''signup'' \<and>
         (\<forall>e'. clock e' div 1000 < ex \<longrightarrow> verifySignupToken cfg e' tok = Inr p)"
    using tok ver
    by (intro exI [of _ ?p] exI [of _ k] exI [of _ "clock e div 1000 + n"]) simp
next
  fix k n
  assume "cfg ''JWT_SIGNUP_SECRET'' = Some k \<and> k \<noteq> [] \<and>
          timespan e (cfg_or cfg ''JWT_SIGNUP_EXPIRY'' ''2h'') = Some n"
  then show "generateSignupToken cfg e attemptId email currentStep =
        Inr (Signed \<lparr>p_sub = None, p_email = Some email, p_tokenId = None,
                     p_attemptId = Some attemptId, p_currentStep = Some currentStep,
                     p_type = Some ''signup''\<rparr>
               k (clock e div 1000) (clock e div 1000 + n))"
    by (simp add: generateSignupToken_def getOrThrow_def jwt_sign_def)
next
  fix p :: jwt_payload and k :: string and i x :: int
  assume "p_type p = Some ''refresh''"
  then show "verifySignupToken cfg e (Signed p k i x) =
        Inl (UnauthorizedException ''Invalid or expired signup token'')"
    by (intro verifySignup_wrong_type) simp
next
  fix p :: jwt_payload and k :: string and i x :: int
  assume "p_type p = Some ''signup''"
  then show "verifyRefreshToken cfg e (Signed p k i x) =
        Inl (UnauthorizedException ''Invalid or expired refresh token'')"
    by (intro verifyRefresh_wrong_type) simp
next
  fix cfg' :: config and e' :: env and t p
  assume "verifyRefreshToken cfg' e' t = Inr p"
  from verifyRefresh_Signed [OF this]
  show "verifySignupToken cfg e t =
        Inl (UnauthorizedException ''Invalid or expired signup token'')"
    by (auto intro!: verifySignup_wrong_type)
next
  fix cfg' :: config and e' :: env and t p
  assume "verifySignupToken cfg' e' t = Inr p"
  from verifySignup_Signed [OF this]
  show "verifyRefreshToken cfg e t =
        Inl (UnauthorizedException ''Invalid or expired refresh token'')"
    by (auto intro!: verifyRefresh_wrong_type)
next
  fix cfg' :: config and e' :: env and uid d tok ex tid d'
  assume "generateRefreshToken cfg' e' uid d = (Inr (tok, ex, tid), d')"
  from generateRefresh_type [OF this]
  show "verifySignupToken cfg e tok =
        Inl (UnauthorizedException ''Invalid or expired signup token'')"
    by (auto intro!: verifySignup_wrong_type)
next
  fix cfg' :: config and e' :: env and a em st tok
  assume "generateSignupToken cfg' e' a em st = Inr tok"
  from generateSignup_type [OF this]
  show "verifyRefreshToken cfg e tok =
        Inl (UnauthorizedException ''Invalid or expired refresh token'')"
    by (auto intro!: verifyRefresh_wrong_type)
qed

text \<open>
  Under a configuration whose refresh and signup keys are equal: the signup token is
  issued and round-trips one second before its expiry; the refresh token \<open>tok2\<close>,
  valid under the refresh verifier, is refused by the signup verifier, and the signup
  token by the refresh verifier.
\<close>

theorem signup_token_witness:
  "generateSignupToken cfg_shared (envAt 1000 ''x'') ''i1'' ''a@b'' ''email_verification''
     = Inr tok_signup \<and>
   verifySignupToken cfg_shared (envAt 7200999 ''y'') tok_signup =
     Inr \<lparr>p_sub = None, p_email = Some ''a@b'', p_tokenId = None, p_attemptId = Some ''i1'',
           p_currentStep = Some ''email_verification'', p_type = Some ''signup''\<rparr> \<and>
   verifyRefreshToken cfg_shared (envAt 1000 ''x'') tok2 =
     Inr \<lparr>p_sub = Some ''u2'', p_email = None, p_tokenId = Some ''t3'',
           p_attemptId = None, p_currentStep = None, p_type = Some ''refresh''\<rparr> \<and>
   verifySignupToken cfg_shared (envAt 1000 ''x'') tok2 =
     Inl (UnauthorizedException ''Invalid or expired signup token'') \<and>
   verifyRefreshToken cfg_shared (envAt 1000 ''x'') tok_signup =
     Inl (UnauthorizedException ''Invalid or expired refresh token'')"
proof -
  note t = signup_token_roundtrip_and_kind_separation
             [of cfg_shared "envAt 1000 ''x''" "''i1''" "''a@b''" "''email_verification''"]
  have pre: "cfg_shared ''JWT_SIGNUP_SECRET'' = Some ''kr'' \<and> ''kr'' \<noteq> [] \<and>
             timespan (envAt 1000 ''x'') (cfg_or cfg_shared ''JWT_SIGNUP_EXPIRY'' ''2h'')
               = Some 7200"
    by (simp add: cfg_shared_def cfg_or_def envAt_def readSpan_def)
  from t [THEN conjunct2, THEN conjunct1, rule_format, OF pre]
  have gen: "generateSignupToken cfg_shared (envAt 1000 ''x'') ''i1'' ''a@b''
               ''email_verification'' = Inr tok_signup"
    by (simp add: envAt_def tok_signup_def)
  from t [THEN conjunct1, rule_format, OF gen] obtain p k ex where
    s: "tok_signup = Signed p k (clock (envAt 1000 ''x'') div 1000) ex" and
    v: "\<forall>e'. clock e' div 1000 < ex \<longrightarrow> verifySignupToken cfg_shared e' tok_signup = Inr p"
    by (elim exE conjE)
  from s have pp: "p = \<lparr>p_sub = None, p_email = Some ''a@b'', p_tokenId = None,
                         p_attemptId = Some ''i1'',
                         p_currentStep = Some ''email_verification'',
                         p_type = Some ''signup''\<rparr>" and ex: "ex = 7201"
    by (simp_all add: tok_signup_def)
  have before: "clock (envAt 7200999 ''y'') div 1000 < ex"
    by (simp add: envAt_def ex)
  have "verifySignupToken cfg_shared (envAt 7200999 ''y'') tok_signup = Inr p"
    by (rule v [rule_format, OF before])
  with pp have ver: "verifySignupToken cfg_shared (envAt 7200999 ''y'') tok_signup =
     Inr \<lparr>p_sub = None, p_email = Some ''a@b'', p_tokenId = None, p_attemptId = Some ''i1'',
           p_currentStep = Some ''email_verification'', p_type = Some ''signup''\<rparr>"
    by simp
  have home: "verifyRefreshToken cfg_shared (envAt 1000 ''x'') tok2 =
     Inr \<lparr>p_sub = Some ''u2'', p_email = None, p_tokenId = Some ''t3'',
           p_attemptId = None, p_currentStep = None, p_type = Some ''refresh''\<rparr>"
    by (simp add: verifyRefreshToken_def getOrThrow_def cfg_shared_def jwt_verify_def
        tok2_def envAt_def Let_def)
  have x1: "verifySignupToken cfg_shared (envAt 1000 ''x'') tok2 =
     Inl (UnauthorizedException ''Invalid or expired signup token'')"
    by (rule t [THEN conjunct2, THEN conjunct2, THEN conjunct2, THEN conjunct2,
                THEN conjunct1, rule_format, OF home])
  have x2: "verifyRefreshToken cfg_shared (envAt 1000 ''x'') tok_signup =
     Inl (UnauthorizedException ''Invalid or expired refresh token'')"
    by (rule t [THEN conjunct2, THEN conjunct2, THEN conjunct2, THEN conjunct2,
                THEN conjunct2, THEN conjunct2, THEN conjunct2, rule_format, OF gen])
  from gen ver home x1 x2 show ?thesis by simp
qed

end
